theory Spec2Isabelle
  imports Complex_Main
begin

section \<open>Operator collections of qiskit-ode (models/operator\_collections.py)\<close>

text \<open>
  The embedding follows \<^verbatim>\<open>src/qiskit_dynamics/models/operator_collections.py\<close>.
  Array entries are exact numbers (complex where the source multiplies by \<^verbatim>\<open>-1j\<close>,
  conjugates or rounds): the rounding error of floating point arithmetic is not part of the
  model. A Python exception is a value \<open>Inl e\<close>; a call that returns is \<open>Inr v\<close>.
\<close>

subsection \<open>Exceptions\<close>

datatype py_error =
  ValueError | TypeError | NameError | AttributeError | IndexError | NotImplementedError

subsection \<open>numpy arrays\<close>

text \<open>
  A 1-D array is a list, a 2-D array a list of rows, a 3-D array of shape \<open>(k, r, c)\<close> a
  list of \<open>k\<close> matrices together with its trailing shape \<open>(r, c)\<close>, which numpy keeps
  also when \<open>k = 0\<close>. A matrix with no rows records no column count. numpy arrays are
  never ragged; \<open>is_mat\<close> and \<open>wf_array3\<close> say so for the lists that stand for them.
\<close>

type_synonym 'a vec = "'a list"
type_synonym 'a mat = "'a list list"

record 'a array3 =
  inner :: "nat \<times> nat"
  items :: "'a mat list"

text \<open>An array argument whose number of dimensions the code inspects (\<^verbatim>\<open>len(y.shape)\<close>).\<close>

datatype 'a ndarray = Arr0 'a | Arr1 "'a vec" | Arr2 "'a mat" | Arr3 "'a mat list"

fun ndim :: "'a ndarray \<Rightarrow> nat" where
  "ndim (Arr0 _) = 0"
| "ndim (Arr1 _) = 1"
| "ndim (Arr2 _) = 2"
| "ndim (Arr3 _) = 3"

definition ncols :: "'a mat \<Rightarrow> nat" where
  "ncols M = (case M of [] \<Rightarrow> 0 | r # _ \<Rightarrow> length r)"

definition is_mat :: "nat \<Rightarrow> nat \<Rightarrow> 'a mat \<Rightarrow> bool" where
  "is_mat r c M \<longleftrightarrow> length M = r \<and> list_all (\<lambda>row. length row = c) M"

definition wf_array3 :: "'a array3 \<Rightarrow> bool" where
  "wf_array3 A \<longleftrightarrow> list_all (is_mat (fst (inner A)) (snd (inner A))) (items A)"

definition stack :: "nat \<Rightarrow> 'a mat list \<Rightarrow> 'a array3" where
  "stack n Ms = \<lparr>inner = (n, n), items = Ms\<rparr>"

definition zeros :: "nat \<Rightarrow> nat \<Rightarrow> 'a::zero mat" where
  "zeros r c = replicate r (replicate c 0)"

definition scal :: "'a::times \<Rightarrow> 'a mat \<Rightarrow> 'a mat" where
  "scal a M = map (map ((*) a)) M"

definition mat_add :: "'a::plus mat \<Rightarrow> 'a mat \<Rightarrow> 'a mat" where
  "mat_add A B = map2 (map2 (+)) A B"

definition mat_sub :: "'a::minus mat \<Rightarrow> 'a mat \<Rightarrow> 'a mat" where
  "mat_sub A B = map2 (map2 (-)) A B"

definition dotp :: "'a::semiring_0 vec \<Rightarrow> 'a vec \<Rightarrow> 'a" where
  "dotp xs ys = sum_list (map2 (*) xs ys)"

definition col :: "nat \<Rightarrow> 'a mat \<Rightarrow> 'a vec" where
  "col j M = map (\<lambda>row. row ! j) M"

definition vecmat :: "'a::semiring_0 vec \<Rightarrow> 'a mat \<Rightarrow> 'a vec" where
  "vecmat v M = map (\<lambda>j. dotp v (col j M)) [0..<ncols M]"

definition matvec :: "'a::semiring_0 mat \<Rightarrow> 'a vec \<Rightarrow> 'a vec" where
  "matvec M v = map (\<lambda>row. dotp row v) M"

definition matmul :: "'a::semiring_0 mat \<Rightarrow> 'a mat \<Rightarrow> 'a mat" where
  "matmul A B = map (\<lambda>row. vecmat row B) A"

text \<open>
  Elementwise operators of numpy broadcast: two axes fit when their lengths are equal or
  one of them is 1, and the axis of length 1 is repeated along the other.
\<close>

definition bc_ok :: "nat \<Rightarrow> nat \<Rightarrow> bool" where
  "bc_ok a b \<longleftrightarrow> a = b \<or> a = 1 \<or> b = 1"

definition bc_dim :: "nat \<Rightarrow> nat \<Rightarrow> nat" where
  "bc_dim a b = (if a = 1 then b else a)"

definition stretch :: "nat \<Rightarrow> 'a list \<Rightarrow> 'a list" where
  "stretch n xs = (case xs of [x] \<Rightarrow> replicate n x | _ \<Rightarrow> xs)"

definition bc_zip :: "('a \<Rightarrow> 'a \<Rightarrow> 'b) \<Rightarrow> 'a list \<Rightarrow> 'a list \<Rightarrow> 'b list" where
  "bc_zip f xs ys =
     (let n = bc_dim (length xs) (length ys) in map2 f (stretch n xs) (stretch n ys))"

definition np_binop1 :: "('a \<Rightarrow> 'a \<Rightarrow> 'a) \<Rightarrow> 'a vec \<Rightarrow> 'a vec \<Rightarrow> py_error + 'a vec" where
  "np_binop1 f u v =
     (if bc_ok (length u) (length v) then Inr (bc_zip f u v) else Inl ValueError)"

definition np_binop2 :: "('a \<Rightarrow> 'a \<Rightarrow> 'a) \<Rightarrow> 'a mat \<Rightarrow> 'a mat \<Rightarrow> py_error + 'a mat" where
  "np_binop2 f A B =
     (if bc_ok (length A) (length B) \<and> bc_ok (ncols A) (ncols B)
      then Inr (bc_zip (bc_zip f) A B) else Inl ValueError)"

definition ncols3 :: "'a mat list \<Rightarrow> nat" where
  "ncols3 X = (case X of [] \<Rightarrow> 0 | M # _ \<Rightarrow> ncols M)"

definition np_binop3 ::
  "('a \<Rightarrow> 'a \<Rightarrow> 'a) \<Rightarrow> 'a mat list \<Rightarrow> 'a mat list \<Rightarrow> py_error + 'a mat list" where
  "np_binop3 f X Y =
     (if bc_ok (length X) (length Y) \<and> bc_ok (ncols X) (ncols Y) \<and> bc_ok (ncols3 X) (ncols3 Y)
      then Inr (bc_zip (bc_zip (bc_zip f)) X Y) else Inl ValueError)"

text \<open>
  \<^verbatim>\<open>np.tensordot(signal_values, operators, axes=1)\<close> for a 1-D \<open>signal_values\<close> and a
  numeric 3-D \<open>operators\<close>: the contraction \<open>\<Sum>j. s[j] * G[j]\<close>, a ValueError when the
  contracted axes differ in length.
\<close>

definition np_tensordot :: "'a::semiring_0 vec \<Rightarrow> 'a array3 \<Rightarrow> py_error + 'a mat" where
  "np_tensordot s A =
     (if length s = length (items A)
      then Inr (foldr mat_add (map2 scal s (items A)) (zeros (fst (inner A)) (snd (inner A))))
      else Inl ValueError)"

text \<open>
  \<^verbatim>\<open>np.dot(G, y)\<close> for a matrix \<open>G\<close>: a multiple of \<open>G\<close> for a scalar \<open>y\<close>, the
  matrix-vector and the matrix product for 1-D and 2-D \<open>y\<close>, and for a 3-D \<open>y\<close> the sum
  over the last axis of \<open>G\<close> and the second-to-last of \<open>y\<close>, of shape \<open>(n, b, c)\<close>.
\<close>

fun np_dot :: "'a::semiring_0 mat \<Rightarrow> 'a ndarray \<Rightarrow> py_error + 'a ndarray" where
  "np_dot G (Arr0 c) = Inr (Arr2 (map (map (\<lambda>x. x * c)) G))"
| "np_dot G (Arr1 v) = (if ncols G = length v then Inr (Arr1 (matvec G v)) else Inl ValueError)"
| "np_dot G (Arr2 Y) = (if ncols G = length Y then Inr (Arr2 (matmul G Y)) else Inl ValueError)"
| "np_dot G (Arr3 Ys) =
     (if list_all (\<lambda>Y. length Y = ncols G) Ys
      then Inr (Arr3 (map (\<lambda>row. map (\<lambda>Y. vecmat row Y) Ys) G)) else Inl ValueError)"

text \<open>\<^verbatim>\<open>G @ y\<close> (\<^verbatim>\<open>np.matmul\<close>) for a matrix \<open>G\<close> and a 1-D or 2-D \<open>y\<close>.\<close>

fun np_matmul :: "'a::semiring_0 mat \<Rightarrow> 'a ndarray \<Rightarrow> py_error + 'a ndarray" where
  "np_matmul G (Arr0 c) = Inl ValueError"
| "np_matmul G (Arr1 v) = (if ncols G = length v then Inr (Arr1 (matvec G v)) else Inl ValueError)"
| "np_matmul G (Arr2 Y) = (if ncols G = length Y then Inr (Arr2 (matmul G Y)) else Inl ValueError)"
| "np_matmul G (Arr3 Ys) =
     (if list_all (\<lambda>Y. length Y = ncols G) Ys
      then Inr (Arr3 (map (\<lambda>Y. matmul G Y) Ys)) else Inl ValueError)"

subsection \<open>DenseOperatorCollection\<close>

text \<open>
  \<^verbatim>\<open>self._operators\<close>, a \<open>(k,n,n)\<close> array, and \<^verbatim>\<open>self._drift\<close>, an array or None.
  \<^verbatim>\<open>to_array\<close> of \<^verbatim>\<open>qiskit_dynamics.type_utils\<close> is not among the sources; on an
  array it is taken to return the array.
\<close>

record 'a DenseOperatorCollection =
  operators :: "'a array3"
  drift :: "'a mat option"

definition to_array :: "'a array3 \<Rightarrow> 'a array3" where
  "to_array A = A"

definition DenseOperatorCollection_init ::
  "'a array3 \<Rightarrow> 'a mat option \<Rightarrow> py_error + 'a DenseOperatorCollection" where
  "DenseOperatorCollection_init ops d = Inr \<lparr>operators = to_array ops, drift = d\<rparr>"

definition Dense_num_operators :: "'a DenseOperatorCollection \<Rightarrow> py_error + nat" where
  "Dense_num_operators c = Inr (length (items (operators c)))"

definition Dense_evaluate_generator ::
  "'a::semiring_0 DenseOperatorCollection \<Rightarrow> 'a vec \<Rightarrow> py_error + 'a mat" where
  "Dense_evaluate_generator c signal_values =
     (case drift c of
        None \<Rightarrow> np_tensordot signal_values (operators c)
      | Some d \<Rightarrow>
          (case np_tensordot signal_values (operators c) of
             Inl e \<Rightarrow> Inl e
           | Inr g \<Rightarrow> np_binop2 (+) g d))"

definition Dense_evaluate_rhs ::
  "'a::semiring_0 DenseOperatorCollection \<Rightarrow> 'a vec \<Rightarrow> 'a ndarray \<Rightarrow> py_error + 'a ndarray" where
  "Dense_evaluate_rhs c signal_values y =
     (case Dense_evaluate_generator c signal_values of
        Inl e \<Rightarrow> Inl e
      | Inr g \<Rightarrow> np_dot g y)"

subsection \<open>SparseOperatorCollection\<close>

text \<open>
  \<^verbatim>\<open>np.round(x, decimals)\<close>: the nearest multiple of \<open>10 powi (- decimals)\<close>, a tie going
  to the even one, on the real and on the imaginary part. On None it raises TypeError.
\<close>

definition rint :: "real \<Rightarrow> real" where
  "rint x =
     (let f = \<lfloor>x\<rfloor>; r = x - of_int f in
      if r < 1 / 2 then of_int f
      else if 1 / 2 < r then of_int (f + 1)
      else if even f then of_int f else of_int (f + 1))"

definition round_dec :: "int \<Rightarrow> real \<Rightarrow> real" where
  "round_dec d x = rint (x * 10 powi d) / 10 powi d"

definition np_round :: "int \<Rightarrow> complex \<Rightarrow> complex" where
  "np_round d z = Complex (round_dec d (Re z)) (round_dec d (Im z))"

definition round_mat :: "int \<Rightarrow> complex mat \<Rightarrow> complex mat" where
  "round_mat d M = map (map (np_round d)) M"

text \<open>
  \<^verbatim>\<open>self._operators\<close> is a 1-D array of dtype object holding one \<^verbatim>\<open>csr_matrix\<close> for
  each operator; \<^verbatim>\<open>self._drift\<close> is a \<^verbatim>\<open>csr_matrix\<close> (the code also tests it for None).
  A sparse matrix is modelled by the dense matrix with the same entries.
\<close>

record 'a SparseOperatorCollection =
  sp_operators :: "'a mat list"
  sp_drift :: "'a mat option"

definition SparseOperatorCollection_init ::
  "complex array3 \<Rightarrow> complex mat option \<Rightarrow> int \<Rightarrow> py_error + complex SparseOperatorCollection" where
  "SparseOperatorCollection_init ops d decimals =
     (case d of
        None \<Rightarrow> Inl TypeError
      | Some D \<Rightarrow>
          Inr \<lparr>sp_operators = map (round_mat decimals) (items ops),
               sp_drift = Some (round_mat decimals D)\<rparr>)"

definition Sparse_num_operators :: "'a SparseOperatorCollection \<Rightarrow> py_error + nat" where
  "Sparse_num_operators c = Inr (length (sp_operators c))"

text \<open>Sparse matrices add only when their shapes are equal.\<close>

definition csr_add :: "'a::plus mat \<Rightarrow> 'a mat \<Rightarrow> py_error + 'a mat" where
  "csr_add A B =
     (if length A = length B \<and> ncols A = ncols B then Inr (mat_add A B) else Inl ValueError)"

definition csr_mul_vec :: "'a::semiring_0 mat \<Rightarrow> 'a vec \<Rightarrow> py_error + 'a vec" where
  "csr_mul_vec G v = (if ncols G = length v then Inr (matvec G v) else Inl ValueError)"

definition csr_dot :: "'a::semiring_0 mat \<Rightarrow> 'a mat \<Rightarrow> py_error + 'a mat" where
  "csr_dot G Y = (if ncols G = length Y then Inr (matmul G Y) else Inl ValueError)"

text \<open>
  The sum of a 1-D array of dtype object, as the dot product of object arrays forms it:
  the first entry, then each further entry added on the right. Of no entries it is None.
\<close>

fun obj_sum :: "('a \<Rightarrow> 'a \<Rightarrow> py_error + 'a) \<Rightarrow> 'a list \<Rightarrow> py_error + 'a option" where
  "obj_sum add [] = Inr None"
| "obj_sum add (x # xs) =
     (case foldl (\<lambda>acc y. case acc of Inl e \<Rightarrow> Inl e | Inr a \<Rightarrow> add a y) (Inr x) xs of
        Inl e \<Rightarrow> Inl e
      | Inr r \<Rightarrow> Inr (Some r))"

definition obj_tensordot :: "'a::semiring_0 vec \<Rightarrow> 'a mat list \<Rightarrow> py_error + 'a mat option" where
  "obj_tensordot s Gs =
     (if length s = length Gs then obj_sum csr_add (map2 scal s Gs) else Inl ValueError)"

primrec mapE :: "('a \<Rightarrow> py_error + 'b) \<Rightarrow> 'a list \<Rightarrow> py_error + 'b list" where
  "mapE f [] = Inr []"
| "mapE f (x # xs) =
     (case f x of
        Inl e \<Rightarrow> Inl e
      | Inr y \<Rightarrow> (case mapE f xs of Inl e \<Rightarrow> Inl e | Inr ys \<Rightarrow> Inr (y # ys)))"

definition Sparse_evaluate_generator ::
  "'a::semiring_0 SparseOperatorCollection \<Rightarrow> 'a vec \<Rightarrow> py_error + 'a mat option" where
  "Sparse_evaluate_generator c signal_values =
     (case sp_drift c of
        None \<Rightarrow> obj_tensordot signal_values (sp_operators c)
      | Some d \<Rightarrow>
          (case obj_tensordot signal_values (sp_operators c) of
             Inl e \<Rightarrow> Inl e
           | Inr None \<Rightarrow> Inl TypeError
           | Inr (Some g) \<Rightarrow>
               (case csr_add g d of Inl e \<Rightarrow> Inl e | Inr r \<Rightarrow> Inr (Some r))))"

text \<open>
  \<^verbatim>\<open>evaluate_rhs\<close> has a branch for \<^verbatim>\<open>len(y.shape) == 2\<close> and one for
  \<^verbatim>\<open>len(y.shape) == 1\<close> and no \<^verbatim>\<open>else\<close>: the result \<open>Inr None\<close> is Python's None.
\<close>

text \<open>
  The 2-D branch, \<^verbatim>\<open>gen = np.tensordot(signal_values, self._operators, axes=1) + self.drift\<close>,
  contracts the 1-D signal values with the 1-D object array without the
  \<^verbatim>\<open>reshape(1, k)\<close> and the \<^verbatim>\<open>[0]\<close> of \<^verbatim>\<open>evaluate_generator\<close>: the sum arrives as
  a 0-d array of dtype object, and a \<^verbatim>\<open>csr_matrix\<close> takes a 0-d array for a scalar. A
  scalar that compares equal to 0 is added by returning a copy of the matrix, any other
  raises NotImplementedError; the comparison is true only for a sum that is one zero
  entry. Only then is \<^verbatim>\<open>gen.dot(y)\<close> reached, with the drift for \<^verbatim>\<open>gen\<close>.
\<close>

definition Sparse_rhs_matrix ::
  "'a::semiring_0 SparseOperatorCollection \<Rightarrow> 'a vec \<Rightarrow> 'a mat \<Rightarrow> py_error + 'a ndarray option" where
  "Sparse_rhs_matrix c signal_values Y =
     (case obj_tensordot signal_values (sp_operators c) of
        Inl e \<Rightarrow> Inl e
      | Inr t \<Rightarrow>
          (case sp_drift c of
             None \<Rightarrow> Inl TypeError
           | Some d \<Rightarrow>
               (case t of
                  Some [[x]] \<Rightarrow>
                    (if x = 0
                     then (case csr_dot d Y of Inl e \<Rightarrow> Inl e | Inr r \<Rightarrow> Inr (Some (Arr2 r)))
                     else Inl NotImplementedError)
                | _ \<Rightarrow> Inl NotImplementedError)))"

definition Sparse_rhs_vector ::
  "'a::semiring_0 SparseOperatorCollection \<Rightarrow> 'a vec \<Rightarrow> 'a vec \<Rightarrow> py_error + 'a ndarray option" where
  "Sparse_rhs_vector c signal_values v =
     (case mapE (\<lambda>G. csr_mul_vec G v) (sp_operators c) of
        Inl e \<Rightarrow> Inl e
      | Inr prods \<Rightarrow>
          (if length signal_values \<noteq> length prods then Inl ValueError
           else
             (case obj_sum (np_binop1 (+)) (map2 (\<lambda>a u. map ((*) a) u) signal_values prods) of
                Inl e \<Rightarrow> Inl e
              | Inr t \<Rightarrow>
                  (case sp_drift c of
                     None \<Rightarrow> Inl AttributeError
                   | Some d \<Rightarrow>
                       (case csr_mul_vec d v of
                          Inl e \<Rightarrow> Inl e
                        | Inr dv \<Rightarrow>
                            (case t of
                               None \<Rightarrow> Inl TypeError
                             | Some w \<Rightarrow>
                                 (case np_binop1 (+) w dv of
                                    Inl e \<Rightarrow> Inl e
                                  | Inr r \<Rightarrow> Inr (Some (Arr1 r)))))))))"

definition Sparse_evaluate_rhs ::
  "'a::semiring_0 SparseOperatorCollection \<Rightarrow> 'a vec \<Rightarrow> 'a ndarray \<Rightarrow> py_error + 'a ndarray option" where
  "Sparse_evaluate_rhs c signal_values y =
     (case y of
        Arr2 Y \<Rightarrow> Sparse_rhs_matrix c signal_values Y
      | Arr1 v \<Rightarrow> Sparse_rhs_vector c signal_values v
      | _ \<Rightarrow> Inr None)"

subsection \<open>DenseLindbladCollection\<close>

definition bindE :: "py_error + 'a \<Rightarrow> ('a \<Rightarrow> py_error + 'b) \<Rightarrow> py_error + 'b" where
  "bindE m f = (case m of Inl e \<Rightarrow> Inl e | Inr x \<Rightarrow> f x)"

text \<open>Indexing a shape tuple, a negative index counting from its end.\<close>

definition tuple_index :: "nat list \<Rightarrow> int \<Rightarrow> py_error + nat" where
  "tuple_index t i =
     (if 0 \<le> i \<and> i < int (length t) then Inr (t ! nat i)
      else if i < 0 \<and> - i \<le> int (length t) then Inr (t ! nat (int (length t) + i))
      else Inl IndexError)"

definition shape3 :: "'a array3 \<Rightarrow> nat list" where
  "shape3 A = [length (items A), fst (inner A), snd (inner A)]"

definition transpose_mat :: "nat \<Rightarrow> 'a mat \<Rightarrow> 'a mat" where
  "transpose_mat c M = map (\<lambda>j. col j M) [0..<c]"

definition dagger :: "nat \<Rightarrow> complex mat \<Rightarrow> complex mat" where
  "dagger c M = map (map cnj) (transpose_mat c M)"

text \<open>
  \<^verbatim>\<open>np.conjugate(np.transpose(dissipator_operators, [0, 2, 1]))\<close> and the product
  \<^verbatim>\<open>np.matmul\<close> of two stacks of equally many matrices.
\<close>

definition conj3 :: "complex array3 \<Rightarrow> complex array3" where
  "conj3 L = \<lparr>inner = (snd (inner L), fst (inner L)), items = map (dagger (snd (inner L))) (items L)\<rparr>"

definition matmul3 :: "'a::semiring_0 array3 \<Rightarrow> 'a array3 \<Rightarrow> 'a array3" where
  "matmul3 A B = \<lparr>inner = (fst (inner A), snd (inner B)), items = map2 matmul (items A) (items B)\<rparr>"

text \<open>
  The attributes \<^verbatim>\<open>_dissipator_operators_conj\<close> and \<^verbatim>\<open>_dissipator_products\<close> are set
  only when \<^verbatim>\<open>dissipator_operators\<close> is not None; None in these two fields stands for
  the attribute that was never set.
\<close>

record DenseLindbladCollection =
  hamiltonian_operators :: "complex array3"
  dissipator_operators :: "complex array3 option"
  dissipator_operators_conj :: "complex array3 option"
  dissipator_products :: "complex array3 option"
  lb_drift :: "complex mat option"

definition DenseLindbladCollection_init ::
  "complex array3 \<Rightarrow> complex mat option \<Rightarrow> complex array3 option \<Rightarrow> py_error + DenseLindbladCollection" where
  "DenseLindbladCollection_init H d L =
     Inr \<lparr>hamiltonian_operators = H,
          dissipator_operators = L,
          dissipator_operators_conj = map_option conj3 L,
          dissipator_products = map_option (\<lambda>Ls. matmul3 (conj3 Ls) Ls) L,
          lb_drift = d\<rparr>"

definition DenseLindblad_num_operators :: "DenseLindbladCollection \<Rightarrow> py_error + nat \<times> nat" where
  "DenseLindblad_num_operators c =
     bindE (tuple_index (shape3 (hamiltonian_operators c)) (- 3)) (\<lambda>k.
       case dissipator_operators c of
         None \<Rightarrow> Inl AttributeError
       | Some L \<Rightarrow> bindE (tuple_index (shape3 L) (- 3)) (\<lambda>m. Inr (k, m)))"

definition DenseLindblad_evaluate_generator :: "DenseLindbladCollection \<Rightarrow> 's \<Rightarrow> py_error + 'r" where
  "DenseLindblad_evaluate_generator c signal_values = Inl ValueError"

definition DenseLindblad_evaluate_hamiltonian ::
  "DenseLindbladCollection \<Rightarrow> complex vec \<Rightarrow> py_error + complex mat" where
  "DenseLindblad_evaluate_hamiltonian c signal_values =
     bindE (np_tensordot signal_values (hamiltonian_operators c)) (\<lambda>h.
       case lb_drift c of
         None \<Rightarrow> Inl TypeError
       | Some d \<Rightarrow> np_binop2 (+) h d)"

text \<open>
  The state of \<^verbatim>\<open>evaluate_rhs\<close>: a density matrix, an \<open>(n,n)\<close> array, or a batch of
  them, a \<open>(b,n,n)\<close> array (the branch \<^verbatim>\<open>len(y.shape) == 3\<close>).
\<close>

datatype 'a density = Rho "'a mat" | Rhos "'a mat list"

definition np_matmul2 :: "'a::semiring_0 mat \<Rightarrow> 'a mat \<Rightarrow> py_error + 'a mat" where
  "np_matmul2 A B = (if ncols A = length B then Inr (matmul A B) else Inl ValueError)"

definition matmul_left :: "'a::semiring_0 mat \<Rightarrow> 'a density \<Rightarrow> py_error + 'a density" where
  "matmul_left M y =
     (case y of
        Rho R \<Rightarrow> bindE (np_matmul2 M R) (\<lambda>X. Inr (Rho X))
      | Rhos Rs \<Rightarrow> bindE (mapE (np_matmul2 M) Rs) (\<lambda>Xs. Inr (Rhos Xs)))"

definition matmul_right :: "'a::semiring_0 density \<Rightarrow> 'a mat \<Rightarrow> py_error + 'a density" where
  "matmul_right y M =
     (case y of
        Rho R \<Rightarrow> bindE (np_matmul2 R M) (\<lambda>X. Inr (Rho X))
      | Rhos Rs \<Rightarrow> bindE (mapE (\<lambda>R. np_matmul2 R M) Rs) (\<lambda>Xs. Inr (Rhos Xs)))"

text \<open>
  \<^verbatim>\<open>np.matmul(self._dissipator_operators, np.matmul(y, self._dissipator_operators_conj))\<close>
  for one matrix \<open>y\<close>: the stack of the products \<open>L[j] y Ld[j]\<close>.
\<close>

definition sandwich :: "'a::semiring_0 array3 \<Rightarrow> 'a array3 \<Rightarrow> 'a mat \<Rightarrow> py_error + 'a array3" where
  "sandwich L Ld R =
     (if length (items L) = length (items Ld) \<and> ncols R = fst (inner Ld) \<and> snd (inner L) = length R
      then Inr \<lparr>inner = (fst (inner L), snd (inner Ld)),
                items = map2 (\<lambda>Lj Ldj. matmul Lj (matmul R Ldj)) (items L) (items Ld)\<rparr>
      else Inl ValueError)"

text \<open>
  The term \<open>C\<close>: \<^verbatim>\<open>np.tensordot(signal_values[1], ..., axes=(-1, -3))\<close>, which contracts
  the dissipator index; a batch \<open>y\<close> is first given the shape \<open>(b,1,n,n)\<close>, so that the
  contraction is done for each matrix of the batch.
\<close>

definition both_mult ::
  "'a::semiring_0 vec \<Rightarrow> 'a array3 \<Rightarrow> 'a array3 \<Rightarrow> 'a density \<Rightarrow> py_error + 'a density" where
  "both_mult g L Ld y =
     (case y of
        Rho R \<Rightarrow> bindE (sandwich L Ld R) (\<lambda>S. bindE (np_tensordot g S) (\<lambda>X. Inr (Rho X)))
      | Rhos Rs \<Rightarrow>
          bindE (mapE (sandwich L Ld) Rs) (\<lambda>Ss.
            bindE (mapE (np_tensordot g) Ss) (\<lambda>Xs. Inr (Rhos Xs))))"

text \<open>Elementwise \<^verbatim>\<open>+\<close> and \<^verbatim>\<open>-\<close> of two states; a 2-D array broadcasts as a batch of one.\<close>

definition density_binop ::
  "('a \<Rightarrow> 'a \<Rightarrow> 'a) \<Rightarrow> 'a density \<Rightarrow> 'a density \<Rightarrow> py_error + 'a density" where
  "density_binop f x y =
     (case (x, y) of
        (Rho A, Rho B) \<Rightarrow> bindE (np_binop2 f A B) (\<lambda>X. Inr (Rho X))
      | (Rho A, Rhos Bs) \<Rightarrow> bindE (np_binop3 f [A] Bs) (\<lambda>Xs. Inr (Rhos Xs))
      | (Rhos As, Rho B) \<Rightarrow> bindE (np_binop3 f As [B]) (\<lambda>Xs. Inr (Rhos Xs))
      | (Rhos As, Rhos Bs) \<Rightarrow> bindE (np_binop3 f As Bs) (\<lambda>Xs. Inr (Rhos Xs)))"

text \<open>
  The branch without dissipators,
  \<^verbatim>\<open>np.dot(hamiltonian_matrix, y) - np.dot(y, hamiltonian_matrix)\<close>. For a batch \<open>y\<close> of
  shape \<open>(b,n,n)\<close> the first product has shape \<open>(n,b,n)\<close> and the second \<open>(b,n,n)\<close>.
\<close>

definition unitary_rhs :: "'a::ring mat \<Rightarrow> 'a density \<Rightarrow> py_error + 'a density" where
  "unitary_rhs B y =
     (case y of
        Rho R \<Rightarrow>
          bindE (np_matmul2 B R) (\<lambda>X.
            bindE (np_matmul2 R B) (\<lambda>Y.
              bindE (np_binop2 (-) X Y) (\<lambda>Z. Inr (Rho Z))))
      | Rhos Rs \<Rightarrow>
          bindE (np_dot B (Arr3 Rs)) (\<lambda>X.
            bindE (mapE (\<lambda>R. np_matmul2 R B) Rs) (\<lambda>Y.
              case X of
                Arr3 Xs \<Rightarrow> bindE (np_binop3 (-) Xs Y) (\<lambda>Z. Inr (Rhos Z))
              | _ \<Rightarrow> Inl ValueError)))"

definition DenseLindblad_evaluate_rhs ::
  "DenseLindbladCollection \<Rightarrow> complex vec \<times> complex vec \<Rightarrow> complex density
     \<Rightarrow> py_error + complex density" where
  "DenseLindblad_evaluate_rhs c signal_values y =
     bindE (DenseLindblad_evaluate_hamiltonian c (fst signal_values)) (\<lambda>h.
       let hamiltonian_matrix = scal (- \<i>) h in
       case dissipator_operators c of
         None \<Rightarrow> unitary_rhs hamiltonian_matrix y
       | Some L \<Rightarrow>
           (case (dissipator_operators_conj c, dissipator_products c) of
              (Some Ld, Some P) \<Rightarrow>
                bindE (np_tensordot (snd signal_values) P) (\<lambda>t.
                  let dissipators_matrix = scal (- 1 / 2) t in
                  bindE (np_binop2 (+) hamiltonian_matrix dissipators_matrix) (\<lambda>lm.
                  bindE (matmul_left lm y) (\<lambda>left_mult_contribution.
                  bindE (np_binop2 (+) (map (map uminus) hamiltonian_matrix) dissipators_matrix) (\<lambda>rm.
                  bindE (matmul_right y rm) (\<lambda>right_mult_contribution.
                  bindE (both_mult (snd signal_values) L Ld y) (\<lambda>both_mult_contribution.
                  bindE (density_binop (+) left_mult_contribution right_mult_contribution) (\<lambda>lr.
                    density_binop (+) lr both_mult_contribution)))))))
            | _ \<Rightarrow> Inl AttributeError))"

text \<open>\<^verbatim>\<open>BaseOperatorCollection.__call__\<close> on a DenseLindbladCollection.\<close>

definition DenseLindblad_call ::
  "DenseLindbladCollection \<Rightarrow> complex vec \<times> complex vec \<Rightarrow> complex density option
     \<Rightarrow> py_error + complex density" where
  "DenseLindblad_call c signal_values y =
     (case y of
        None \<Rightarrow> DenseLindblad_evaluate_generator c signal_values
      | Some y' \<Rightarrow> DenseLindblad_evaluate_rhs c signal_values y')"

text \<open>
  The Lindblad equation as the class states it, for one \<open>n \<times> n\<close> density matrix:
  \<open>- \<i> [H, \<rho>] + (\<Sum>j. \<gamma>[j] * (L[j] \<rho> L[j]\<^sup>\<dagger> - 1/2 {L[j]\<^sup>\<dagger> L[j], \<rho>}))\<close> with
  \<open>H = (\<Sum>j. s[j] * H[j]) + H\<^sub>d\<close>.
\<close>

definition mat_sum :: "nat \<Rightarrow> 'a::semiring_0 mat list \<Rightarrow> 'a mat" where
  "mat_sum n Ms = foldr mat_add Ms (zeros n n)"

definition commutator :: "'a::ring mat \<Rightarrow> 'a mat \<Rightarrow> 'a mat" where
  "commutator A B = mat_sub (matmul A B) (matmul B A)"

definition anticommutator :: "'a::semiring_0 mat \<Rightarrow> 'a mat \<Rightarrow> 'a mat" where
  "anticommutator A B = mat_add (matmul A B) (matmul B A)"

definition hamiltonian_of :: "nat \<Rightarrow> complex mat list \<Rightarrow> complex mat \<Rightarrow> complex vec \<Rightarrow> complex mat" where
  "hamiltonian_of n Hs Hd s = mat_add (mat_sum n (map2 scal s Hs)) Hd"

definition dissipator_term :: "nat \<Rightarrow> complex mat \<Rightarrow> complex mat \<Rightarrow> complex mat" where
  "dissipator_term n L \<rho> =
     mat_sub (matmul L (matmul \<rho> (dagger n L)))
       (scal (1 / 2) (anticommutator (matmul (dagger n L) L) \<rho>))"

definition lindblad_equation ::
  "nat \<Rightarrow> complex mat list \<Rightarrow> complex mat \<Rightarrow> complex mat list \<Rightarrow> complex vec \<Rightarrow> complex vec
     \<Rightarrow> complex mat \<Rightarrow> complex mat" where
  "lindblad_equation n Hs Hd Ls s g \<rho> =
     mat_add (scal (- \<i>) (commutator (hamiltonian_of n Hs Hd s) \<rho>))
       (mat_sum n (map2 (\<lambda>gj L. scal gj (dissipator_term n L \<rho>)) g Ls))"

definition unitary_equation ::
  "nat \<Rightarrow> complex mat list \<Rightarrow> complex mat \<Rightarrow> complex vec \<Rightarrow> complex mat \<Rightarrow> complex mat" where
  "unitary_equation n Hs Hd s \<rho> = scal (- \<i>) (commutator (hamiltonian_of n Hs Hd s) \<rho>)"

subsection \<open>DenseVectorizedLindbladCollection\<close>

text \<open>
  A subclass of DenseOperatorCollection. \<^verbatim>\<open>vec_commutator\<close> and \<^verbatim>\<open>vec_dissipator\<close>
  of \<^verbatim>\<open>qiskit_dynamics.type_utils\<close> are not among the sources: they are parameters of
  the constructor's model. The constructor ends in
  \<^verbatim>\<open>super().__init__(total_ops, drift=vec_drift)\<close>, and no \<^verbatim>\<open>vec_drift\<close> is bound in
  the function, in the module or among the builtins: evaluating the argument raises
  NameError before \<^verbatim>\<open>super().__init__\<close> is entered. The parameter \<^verbatim>\<open>drift\<close> is never
  read.
\<close>

definition scal3 :: "'a::times \<Rightarrow> 'a array3 \<Rightarrow> 'a array3" where
  "scal3 a A = \<lparr>inner = inner A, items = map (scal a) (items A)\<rparr>"

definition np_append0 :: "'a array3 \<Rightarrow> 'a array3 \<Rightarrow> py_error + 'a array3" where
  "np_append0 A B =
     (if inner A = inner B then Inr \<lparr>inner = inner A, items = items A @ items B\<rparr>
      else Inl ValueError)"

definition DenseVectorizedLindbladCollection_init ::
  "(complex array3 \<Rightarrow> py_error + complex array3) \<Rightarrow> (complex array3 \<Rightarrow> py_error + complex array3)
     \<Rightarrow> complex array3 \<Rightarrow> complex mat option \<Rightarrow> complex array3 option
     \<Rightarrow> py_error + complex DenseOperatorCollection" where
  "DenseVectorizedLindbladCollection_init vec_commutator vec_dissipator H d L =
     bindE (vec_commutator (to_array H)) (\<lambda>vc.
       let vec_ham_ops = scal3 (- \<i>) vc in
       bindE
         (case L of
            Some Ls \<Rightarrow>
              bindE (vec_dissipator (to_array Ls)) (\<lambda>vec_diss_ops.
                np_append0 vec_ham_ops vec_diss_ops)
          | None \<Rightarrow> Inr vec_ham_ops)
         (\<lambda>total_ops. Inl NameError))"

text \<open>
  \<^verbatim>\<open>signal_values\<close> is a list \<^verbatim>\<open>[ham_sig_values, dis_sig_values]\<close>, whose second entry
  may be None, or one array. For a list whose second entry has a nonzero entry the two are
  appended; \<^verbatim>\<open>None != 0\<close> is true as well, and \<^verbatim>\<open>np.append\<close> of an array and None
  raises ValueError. Otherwise only the first entry is passed on.
\<close>

datatype 'a signals = SigList "'a vec" "'a vec option" | SigArray "'a vec"

definition Vectorized_signal_values :: "'a::zero signals \<Rightarrow> py_error + 'a vec" where
  "Vectorized_signal_values sv =
     (case sv of
        SigArray s \<Rightarrow> Inr s
      | SigList sh None \<Rightarrow> Inl ValueError
      | SigList sh (Some g) \<Rightarrow> (if list_ex (\<lambda>x. x \<noteq> 0) g then Inr (sh @ g) else Inr sh))"

definition Vectorized_evaluate_rhs ::
  "'a::semiring_0 DenseOperatorCollection \<Rightarrow> 'a signals \<Rightarrow> 'a ndarray \<Rightarrow> py_error + 'a ndarray" where
  "Vectorized_evaluate_rhs c sv y =
     bindE (Vectorized_signal_values sv) (\<lambda>signal_values. Dense_evaluate_rhs c signal_values y)"

definition Vectorized_evaluate_generator ::
  "'a::semiring_0 DenseOperatorCollection \<Rightarrow> 'a signals \<Rightarrow> py_error + 'a mat" where
  "Vectorized_evaluate_generator c sv =
     bindE (Vectorized_signal_values sv) (\<lambda>signal_values. Dense_evaluate_generator c signal_values)"

subsection \<open>SparseLindbladCollection\<close>

text \<open>
  A subclass of DenseLindbladCollection whose constructor does not call the parent's. The
  operators are 1-D arrays of dtype object; the dissipator attributes are set only when
  \<^verbatim>\<open>dissipator_operators\<close> is not None (None in a dissipator field: the attribute was
  never set). \<^verbatim>\<open>num_operators\<close> and \<^verbatim>\<open>evaluate_generator\<close> are inherited.
\<close>

record SparseLindbladCollection =
  sl_hamiltonian_operators :: "complex mat list"
  sl_drift :: "complex mat option"
  sl_dissipator_operators :: "complex mat list option"
  sl_dissipator_operators_conj :: "complex mat list option"
  sl_dissipator_products :: "complex mat list option"

definition SparseLindbladCollection_init ::
  "complex array3 \<Rightarrow> complex mat option \<Rightarrow> complex array3 option \<Rightarrow> int
     \<Rightarrow> py_error + SparseLindbladCollection" where
  "SparseLindbladCollection_init H d L decimals =
     (let hams = map (round_mat decimals) (items H) in
      case d of
        None \<Rightarrow> Inl TypeError
      | Some D \<Rightarrow>
          (case L of
             None \<Rightarrow>
               Inr \<lparr>sl_hamiltonian_operators = hams, sl_drift = Some (round_mat decimals D),
                    sl_dissipator_operators = None, sl_dissipator_operators_conj = None,
                    sl_dissipator_products = None\<rparr>
           | Some Ls \<Rightarrow>
               (let ops = map (round_mat decimals) (items Ls);
                    conj = map (dagger (snd (inner Ls))) ops in
                bindE (mapE (\<lambda>(a, b). csr_dot a b) (zip conj ops)) (\<lambda>prods.
                  Inr \<lparr>sl_hamiltonian_operators = hams, sl_drift = Some (round_mat decimals D),
                       sl_dissipator_operators = Some ops, sl_dissipator_operators_conj = Some conj,
                       sl_dissipator_products = Some prods\<rparr>))))"

definition SparseLindblad_num_operators :: "SparseLindbladCollection \<Rightarrow> py_error + nat \<times> nat" where
  "SparseLindblad_num_operators c =
     bindE (tuple_index [length (sl_hamiltonian_operators c)] (- 3)) (\<lambda>k.
       case sl_dissipator_operators c of
         None \<Rightarrow> Inl AttributeError
       | Some L \<Rightarrow> bindE (tuple_index [length L] (- 3)) (\<lambda>m. Inr (k, m)))"

definition SparseLindblad_evaluate_generator :: "SparseLindbladCollection \<Rightarrow> 's \<Rightarrow> py_error + 'r" where
  "SparseLindblad_evaluate_generator c signal_values = Inl ValueError"

subsection \<open>Packing density matrices\<close>

text \<open>
  \<^verbatim>\<open>np.vectorize(f, signature="(n,n)->(1)")\<close> calls \<open>f\<close> on each matrix along the leading
  axes of its argument; both core dimensions carry the name \<open>n\<close>, so the matrices must be
  square. An \<open>(n,n)\<close> array gives a 1-D object array with one entry, a \<open>(k,n,n)\<close> array a
  \<open>(k,1)\<close> object array. \<^verbatim>\<open>np.vectorize\<close> learns the output's core dimensions from the
  first call of \<open>f\<close>: on an argument with no matrix it raises ValueError.
\<close>

datatype 'a packed = Packed1 "'a mat list" | Packed2 "'a mat list list"

definition square :: "'a mat \<Rightarrow> bool" where
  "square M \<longleftrightarrow> is_mat (length M) (length M) M"

definition package_density_matrices :: "'a density \<Rightarrow> py_error + 'a packed" where
  "package_density_matrices y =
     (case y of
        Rho M \<Rightarrow> (if square M then Inr (Packed1 [M]) else Inl ValueError)
      | Rhos Ms \<Rightarrow>
          (if Ms = [] then Inl ValueError
           else if list_all (\<lambda>M. is_mat (length (hd Ms)) (length (hd Ms)) M) Ms
           then Inr (Packed2 (map (\<lambda>M. [M]) Ms))
           else Inl ValueError))"

text \<open>
  \<^verbatim>\<open>np.vectorize(f, signature="(1)->(n,n)")\<close> with \<^verbatim>\<open>f(y) = y[0]\<close>: the first entry of
  each row of the object array (IndexError on an empty row), stacked. The first result
  fixes the size \<open>n\<close> and must be square; the results are stored into an array of shape
  \<open>(k,n,n)\<close>, which broadcasts them.
\<close>

definition first_entry :: "'a list \<Rightarrow> py_error + 'a" where
  "first_entry row = (case row of [] \<Rightarrow> Inl IndexError | x # _ \<Rightarrow> Inr x)"

definition store_into :: "nat \<Rightarrow> 'a mat \<Rightarrow> py_error + 'a mat" where
  "store_into n M =
     (if (length M = n \<or> length M = 1) \<and> (ncols M = n \<or> ncols M = 1)
      then Inr (map (stretch n) (stretch n M)) else Inl ValueError)"

definition unpackage_density_matrices :: "'a packed \<Rightarrow> py_error + 'a density" where
  "unpackage_density_matrices y =
     (case y of
        Packed1 row \<Rightarrow>
          bindE (first_entry row) (\<lambda>M. if square M then Inr (Rho M) else Inl ValueError)
      | Packed2 rows \<Rightarrow>
          (case rows of
             [] \<Rightarrow> Inl ValueError
           | r # rs \<Rightarrow>
               bindE (first_entry r) (\<lambda>M.
                 if square M
                 then bindE (mapE (\<lambda>row. bindE (first_entry row) (store_into (length M))) rs)
                        (\<lambda>Ms. Inr (Rhos (M # Ms)))
                 else Inl ValueError)))"

subsection \<open>The terms of the dissipator branch\<close>

text \<open>
  The matrices \<open>A + B\<close> and \<open>A - B\<close> and the term \<open>C\<close> of
  \<^verbatim>\<open>DenseLindbladCollection.evaluate_rhs\<close>, as values, for the proofs below.
\<close>

definition left_of :: "nat \<Rightarrow> complex mat \<Rightarrow> complex mat list \<Rightarrow> complex vec \<Rightarrow> complex mat" where
  "left_of n Hm Ls g =
     mat_add (scal (- \<i>) Hm)
       (scal (- 1 / 2) (mat_sum n (map2 scal g (map2 matmul (map (dagger n) Ls) Ls))))"

definition right_of :: "nat \<Rightarrow> complex mat \<Rightarrow> complex mat list \<Rightarrow> complex vec \<Rightarrow> complex mat" where
  "right_of n Hm Ls g =
     mat_add (map (map uminus) (scal (- \<i>) Hm))
       (scal (- 1 / 2) (mat_sum n (map2 scal g (map2 matmul (map (dagger n) Ls) Ls))))"

definition jump_of :: "nat \<Rightarrow> complex mat list \<Rightarrow> complex vec \<Rightarrow> complex mat \<Rightarrow> complex mat" where
  "jump_of n Ls g R =
     mat_sum n (map2 scal g (map2 (\<lambda>Lj Ldj. matmul Lj (matmul R Ldj)) Ls (map (dagger n) Ls)))"

definition sandwiched :: "nat \<Rightarrow> complex mat list \<Rightarrow> complex mat \<Rightarrow> complex array3" where
  "sandwiched n Ls R =
     \<lparr>inner = (n, n), items = map2 (\<lambda>Lj Ldj. matmul Lj (matmul R Ldj)) Ls (map (dagger n) Ls)\<rparr>"

section \<open>Lemmas on arrays\<close>

lemma is_mat_length: "is_mat r c M \<Longrightarrow> length M = r"
  by (simp add: is_mat_def)

lemma is_mat_row: "is_mat r c M \<Longrightarrow> i < r \<Longrightarrow> length (M ! i) = c"
  by (simp add: is_mat_def list_all_length)

lemma is_mat_rows: "is_mat r c M \<Longrightarrow> row \<in> set M \<Longrightarrow> length row = c"
  by (simp add: is_mat_def list_all_iff)

lemma is_matI: "length M = r \<Longrightarrow> (\<And>i. i < r \<Longrightarrow> length (M ! i) = c) \<Longrightarrow> is_mat r c M"
  by (simp add: is_mat_def list_all_length)

lemma ncols_is_mat: "is_mat r c M \<Longrightarrow> ncols M = (if r = 0 then 0 else c)"
  by (cases M) (auto simp: is_mat_def ncols_def)

lemma ncols_square: "is_mat n n M \<Longrightarrow> ncols M = n"
  by (simp add: ncols_is_mat)

lemma stretch_id: "length xs = n \<Longrightarrow> stretch n xs = xs"
  by (cases xs; cases "tl xs") (auto simp: stretch_def)

lemma bc_zip_same: "length xs = length ys \<Longrightarrow> bc_zip f xs ys = map2 f xs ys"
  by (simp add: bc_zip_def bc_dim_def stretch_id Let_def)

lemma mat_eqI:
  assumes "is_mat r c A" "is_mat r c B" "\<And>i j. i < r \<Longrightarrow> j < c \<Longrightarrow> A ! i ! j = B ! i ! j"
  shows "A = B"
proof (rule nth_equalityI)
  show "length A = length B" using assms by (simp add: is_mat_length)
next
  fix i assume "i < length A"
  then have i: "i < r" using assms by (simp add: is_mat_length)
  show "A ! i = B ! i"
    by (rule nth_equalityI) (use assms i in \<open>auto simp: is_mat_row\<close>)
qed

lemma map2_rows_same:
  assumes "is_mat r c A" "is_mat r c B"
  shows "map2 (bc_zip f) A B = map2 (map2 f) A B"
proof -
  have "\<And>x y. (x, y) \<in> set (zip A B) \<Longrightarrow> bc_zip f x y = map2 f x y"
  proof -
    fix x y assume "(x, y) \<in> set (zip A B)"
    then have "x \<in> set A" "y \<in> set B" by (auto dest: set_zip_leftD set_zip_rightD)
    then show "bc_zip f x y = map2 f x y"
      using assms by (simp add: is_mat_rows bc_zip_same)
  qed
  then show ?thesis by (auto intro!: map_cong)
qed

lemma np_binop2_same:
  assumes "is_mat r c A" "is_mat r c B"
  shows "np_binop2 f A B = Inr (map2 (map2 f) A B)"
  using assms
  by (simp add: np_binop2_def bc_ok_def ncols_is_mat is_mat_length bc_zip_same map2_rows_same)

lemma mat_add_entry:
  "is_mat r c A \<Longrightarrow> is_mat r c B \<Longrightarrow> i < r \<Longrightarrow> j < c \<Longrightarrow> mat_add A B ! i ! j = A ! i ! j + B ! i ! j"
  by (simp add: mat_add_def is_mat_length is_mat_row)

lemma mat_add_is_mat: "is_mat r c A \<Longrightarrow> is_mat r c B \<Longrightarrow> is_mat r c (mat_add A B)"
  by (rule is_matI) (simp_all add: mat_add_def is_mat_length is_mat_row)

lemma mat_sub_entry:
  "is_mat r c A \<Longrightarrow> is_mat r c B \<Longrightarrow> i < r \<Longrightarrow> j < c \<Longrightarrow> mat_sub A B ! i ! j = A ! i ! j - B ! i ! j"
  by (simp add: mat_sub_def is_mat_length is_mat_row)

lemma mat_sub_is_mat: "is_mat r c A \<Longrightarrow> is_mat r c B \<Longrightarrow> is_mat r c (mat_sub A B)"
  by (rule is_matI) (simp_all add: mat_sub_def is_mat_length is_mat_row)

lemma scal_entry: "is_mat r c A \<Longrightarrow> i < r \<Longrightarrow> j < c \<Longrightarrow> scal a A ! i ! j = a * A ! i ! j"
  by (simp add: scal_def is_mat_length is_mat_row)

lemma scal_is_mat: "is_mat r c A \<Longrightarrow> is_mat r c (scal a A)"
  by (rule is_matI) (simp_all add: scal_def is_mat_length is_mat_row)

lemma zeros_is_mat: "is_mat r c (zeros r c)"
  by (simp add: is_mat_def zeros_def list_all_length)

lemma zeros_entry: "i < r \<Longrightarrow> j < c \<Longrightarrow> zeros r c ! i ! j = 0"
  by (simp add: zeros_def)

lemma dotp_sum: "length xs = length ys \<Longrightarrow> dotp xs ys = (\<Sum>l<length xs. xs ! l * ys ! l)"
proof (induction xs ys rule: list_induct2)
  case Nil then show ?case by (simp add: dotp_def)
next
  case (Cons x xs y ys)
  then show ?case
    by (simp add: dotp_def sum.lessThan_Suc_shift del: sum.lessThan_Suc)
qed

lemma matvec_entry:
  "is_mat r c M \<Longrightarrow> length v = c \<Longrightarrow> i < r \<Longrightarrow> matvec M v ! i = (\<Sum>l<c. M ! i ! l * v ! l)"
  by (simp add: matvec_def is_mat_length is_mat_row dotp_sum)

lemma vecmat_entry:
  "is_mat r c M \<Longrightarrow> 0 < r \<Longrightarrow> length v = r \<Longrightarrow> j < c \<Longrightarrow> vecmat v M ! j = (\<Sum>l<r. v ! l * M ! l ! j)"
  by (simp add: vecmat_def ncols_is_mat col_def is_mat_length dotp_sum)

lemma vecmat_length: "is_mat r c M \<Longrightarrow> 0 < r \<Longrightarrow> length (vecmat v M) = c"
  by (simp add: vecmat_def ncols_is_mat)

lemma matmul_entry:
  "is_mat r m A \<Longrightarrow> is_mat m c B \<Longrightarrow> 0 < m \<Longrightarrow> i < r \<Longrightarrow> j < c \<Longrightarrow>
   matmul A B ! i ! j = (\<Sum>l<m. A ! i ! l * B ! l ! j)"
  by (simp add: matmul_def is_mat_length is_mat_row vecmat_entry)

lemma matmul_is_mat: "is_mat r m A \<Longrightarrow> is_mat m c B \<Longrightarrow> 0 < m \<Longrightarrow> is_mat r c (matmul A B)"
  by (rule is_matI) (simp_all add: matmul_def is_mat_length vecmat_length)


lemma foldr_mat_add:
  assumes "list_all (is_mat r c) Ms"
  shows "is_mat r c (foldr mat_add Ms (zeros r c)) \<and>
    (\<forall>i<r. \<forall>j<c. foldr mat_add Ms (zeros r c) ! i ! j = (\<Sum>k<length Ms. Ms ! k ! i ! j))"
  using assms
proof (induction Ms)
  case Nil
  then show ?case by (simp add: zeros_is_mat zeros_entry)
next
  case (Cons M Ms)
  then have M: "is_mat r c M" and IH: "is_mat r c (foldr mat_add Ms (zeros r c))"
    "\<And>i j. i < r \<Longrightarrow> j < c \<Longrightarrow> foldr mat_add Ms (zeros r c) ! i ! j = (\<Sum>k<length Ms. Ms ! k ! i ! j)"
    by simp_all
  show ?case
    using M IH by (simp add: mat_add_is_mat mat_add_entry sum.lessThan_Suc_shift del: sum.lessThan_Suc)
qed

lemma map2_scal_all:
  "list_all (is_mat r c) Gs \<Longrightarrow> list_all (is_mat r c) (map2 scal s Gs)"
  by (auto simp: list_all_iff scal_is_mat dest!: set_zip_rightD)

lemma map2_scal_entry:
  assumes "list_all (is_mat r c) Gs" "length s = length Gs" "k < length Gs" "i < r" "j < c"
  shows "map2 scal s Gs ! k ! i ! j = s ! k * Gs ! k ! i ! j"
proof -
  have "is_mat r c (Gs ! k)" using assms by (simp add: list_all_length)
  then show ?thesis using assms by (simp add: scal_entry)
qed

lemma np_tensordot_entries:
  assumes "wf_array3 A" "inner A = (r, c)" "length s = length (items A)"
  shows "\<exists>G. np_tensordot s A = Inr G \<and> is_mat r c G \<and>
    (\<forall>i<r. \<forall>j<c. G ! i ! j = (\<Sum>k<length s. s ! k * items A ! k ! i ! j))"
proof -
  have all: "list_all (is_mat r c) (items A)" using assms by (simp add: wf_array3_def)
  have "list_all (is_mat r c) (map2 scal s (items A))" using all by (rule map2_scal_all)
  from foldr_mat_add[OF this]
  have 1: "is_mat r c (foldr mat_add (map2 scal s (items A)) (zeros r c))"
    and 2: "\<And>i j. i < r \<Longrightarrow> j < c \<Longrightarrow> foldr mat_add (map2 scal s (items A)) (zeros r c) ! i ! j
       = (\<Sum>k<length (map2 scal s (items A)). map2 scal s (items A) ! k ! i ! j)"
    by simp_all
  have 3: "(\<Sum>k<length (map2 scal s (items A)). map2 scal s (items A) ! k ! i ! j)
       = (\<Sum>k<length s. s ! k * items A ! k ! i ! j)" if "i < r" "j < c" for i j
  proof (rule sum.cong)
    show "{..<length (map2 scal s (items A))} = {..<length s}" using assms(3) by simp
  next
    fix k assume "k \<in> {..<length s}"
    then have "k < length (items A)" using assms(3) by simp
    from map2_scal_entry[OF all assms(3) this that]
    show "map2 scal s (items A) ! k ! i ! j = s ! k * items A ! k ! i ! j" .
  qed
  show ?thesis
    using assms 1 2 3 by (simp add: np_tensordot_def)
qed

lemma bindE_Inr: "bindE (Inr x) f = f x"
  by (simp add: bindE_def)

lemma bindE_Inl: "bindE (Inl e) f = Inl e"
  by (simp add: bindE_def)

lemma mapE_all_Inr: "(\<And>x. x \<in> set xs \<Longrightarrow> f x = Inr (g x)) \<Longrightarrow> mapE f xs = Inr (map g xs)"
  by (induction xs) simp_all

lemma store_into_id: "is_mat n n M \<Longrightarrow> store_into n M = Inr M"
proof -
  assume M: "is_mat n n M"
  have "map (stretch n) (stretch n M) = M"
    using M by (simp add: stretch_id is_mat_length is_mat_rows map_idI)
  then show ?thesis using M by (simp add: store_into_def is_mat_length ncols_square)
qed

lemma square_is_mat: "is_mat n n M \<Longrightarrow> square M"
  by (simp add: square_def is_mat_length)

lemma package_unpackage_single:
  "is_mat n n M \<Longrightarrow>
   bindE (package_density_matrices (Rho M)) unpackage_density_matrices = Inr (Rho M)"
  by (simp add: package_density_matrices_def unpackage_density_matrices_def square_is_mat
      bindE_Inr first_entry_def)

lemma csr_add_same: "is_mat r c A \<Longrightarrow> is_mat r c B \<Longrightarrow> csr_add A B = Inr (mat_add A B)"
  by (simp add: csr_add_def is_mat_length ncols_is_mat)

lemma np_binop1_same: "length u = length v \<Longrightarrow> np_binop1 f u v = Inr (map2 f u v)"
  by (simp add: np_binop1_def bc_ok_def bc_zip_same)

lemma foldl_csr_add:
  assumes "list_all (is_mat r c) xs" "is_mat r c x"
  shows "foldl (\<lambda>acc y. case acc of Inl e \<Rightarrow> Inl e | Inr a \<Rightarrow> csr_add a y) (Inr x) xs
      = Inr (foldl mat_add x xs)"
  using assms
proof (induction xs arbitrary: x)
  case Nil
  then show ?case by simp
next
  case (Cons y ys)
  then have "is_mat r c y" "list_all (is_mat r c) ys" by simp_all
  with Cons show ?case by (simp add: csr_add_same mat_add_is_mat)
qed

lemma foldl_mat_add:
  assumes "list_all (is_mat r c) xs" "is_mat r c x"
  shows "is_mat r c (foldl mat_add x xs) \<and>
    (\<forall>i<r. \<forall>j<c. foldl mat_add x xs ! i ! j = x ! i ! j + (\<Sum>k<length xs. xs ! k ! i ! j))"
  using assms
proof (induction xs arbitrary: x)
  case Nil
  then show ?case by simp
next
  case (Cons y ys)
  then have y: "is_mat r c y" and ys: "list_all (is_mat r c) ys" by simp_all
  have xy: "is_mat r c (mat_add x y)" using Cons.prems(2) y by (rule mat_add_is_mat)
  from Cons.IH[OF ys xy] show ?case
    using Cons.prems(2) y
    by (simp add: mat_add_entry sum.lessThan_Suc_shift add.assoc del: sum.lessThan_Suc)
qed

lemma obj_tensordot_entries:
  assumes "Gs \<noteq> []" "list_all (is_mat r c) Gs" "length s = length Gs"
  shows "\<exists>G. obj_tensordot s Gs = Inr (Some G) \<and> is_mat r c G \<and>
    (\<forall>i<r. \<forall>j<c. G ! i ! j = (\<Sum>k<length s. s ! k * Gs ! k ! i ! j))"
proof -
  obtain a s' where s: "s = a # s'" using assms by (cases s) auto
  obtain G0 Gs' where Gs: "Gs = G0 # Gs'" using assms by (cases Gs) auto
  have G0: "is_mat r c G0" and Gs': "list_all (is_mat r c) Gs'" and len: "length s' = length Gs'"
    using assms s Gs by simp_all
  let ?x = "scal a G0" and ?xs = "map2 scal s' Gs'"
  have x: "is_mat r c ?x" using G0 by (rule scal_is_mat)
  have xs: "list_all (is_mat r c) ?xs" using Gs' by (rule map2_scal_all)
  have val: "obj_tensordot s Gs = Inr (Some (foldl mat_add ?x ?xs))"
    using assms(3) by (simp add: obj_tensordot_def s Gs foldl_csr_add[OF xs x])
  have ent: "foldl mat_add ?x ?xs ! i ! j = (\<Sum>k<length s. s ! k * Gs ! k ! i ! j)"
    if ij: "i < r" "j < c" for i j
  proof -
    have "(\<Sum>k<length ?xs. ?xs ! k ! i ! j) = (\<Sum>k<length s'. s' ! k * Gs' ! k ! i ! j)"
    proof (rule sum.cong)
      show "{..<length ?xs} = {..<length s'}" using len by simp
    next
      fix k assume "k \<in> {..<length s'}"
      then have "k < length Gs'" using len by simp
      from map2_scal_entry[OF Gs' len this ij]
      show "?xs ! k ! i ! j = s' ! k * Gs' ! k ! i ! j" .
    qed
    then show ?thesis
      using foldl_mat_add[OF xs x] ij G0
      by (simp add: s Gs scal_entry sum.lessThan_Suc_shift del: sum.lessThan_Suc)
  qed
  show ?thesis using val ent foldl_mat_add[OF xs x] by simp
qed

lemma dotp_add_left:
  fixes x :: "'a::semiring_0 list"
  assumes "length x = length v" "length y = length v"
  shows "dotp (map2 (+) x y) v = dotp x v + dotp y v"
  using assms by (simp add: dotp_sum distrib_right sum.distrib)

lemma dotp_scal_left:
  fixes x :: "'a::semiring_0 list"
  assumes "length x = length v"
  shows "dotp (map ((*) a) x) v = a * dotp x v"
  using assms by (simp add: dotp_sum sum_distrib_left mult.assoc)

lemma matvec_length: "length (matvec M v) = length M"
  by (simp add: matvec_def)

lemma matvec_add:
  fixes A :: "'a::semiring_0 mat"
  assumes "is_mat r c A" "is_mat r c B" "length v = c"
  shows "matvec (mat_add A B) v = map2 (+) (matvec A v) (matvec B v)"
proof (rule nth_equalityI)
  show "length (matvec (mat_add A B) v) = length (map2 (+) (matvec A v) (matvec B v))"
    using assms by (simp add: matvec_def mat_add_def is_mat_length)
next
  fix i assume "i < length (matvec (mat_add A B) v)"
  then have i: "i < r" using assms by (simp add: matvec_def mat_add_def is_mat_length)
  then show "matvec (mat_add A B) v ! i = map2 (+) (matvec A v) (matvec B v) ! i"
    using assms by (simp add: matvec_def mat_add_def is_mat_length is_mat_row dotp_add_left)
qed

lemma matvec_scal:
  fixes A :: "'a::semiring_0 mat"
  assumes "is_mat r c A" "length v = c"
  shows "matvec (scal a A) v = map ((*) a) (matvec A v)"
  using assms by (auto simp: matvec_def scal_def is_mat_rows dotp_scal_left)

lemma foldl_vec_add:
  fixes x :: "'a::semiring_0 mat"
  assumes "list_all (is_mat r c) xs" "is_mat r c x" "length v = c"
  shows "foldl (\<lambda>acc y. case acc of Inl e \<Rightarrow> Inl e | Inr a \<Rightarrow> np_binop1 (+) a y)
           (Inr (matvec x v)) (map (\<lambda>M. matvec M v) xs)
         = Inr (matvec (foldl mat_add x xs) v)"
  using assms
proof (induction xs arbitrary: x)
  case Nil
  then show ?case by simp
next
  case (Cons y ys)
  then have y: "is_mat r c y" and ys: "list_all (is_mat r c) ys" by simp_all
  have xy: "is_mat r c (mat_add x y)" using Cons.prems(2) y by (rule mat_add_is_mat)
  have "np_binop1 (+) (matvec x v) (matvec y v) = Inr (matvec (mat_add x y) v)"
    using Cons.prems y
    by (simp add: np_binop1_same matvec_length is_mat_length matvec_add[OF Cons.prems(2) y])
  then show ?case using Cons.IH[OF ys xy Cons.prems(3)] by simp
qed

lemma weighted_products:
  fixes Gs :: "'a::semiring_0 mat list"
  assumes "list_all (is_mat r c) Gs" "length s = length Gs" "length v = c"
  shows "map2 (\<lambda>a u. map ((*) a) u) s (map (\<lambda>G. matvec G v) Gs)
         = map (\<lambda>M. matvec M v) (map2 scal s Gs)"
  using assms(2,1,3)
  by (induction s Gs rule: list_induct2) (simp_all add: matvec_scal[where r=r and c=c])

lemma csr_mul_vec_square: "is_mat n n G \<Longrightarrow> length v = n \<Longrightarrow> csr_mul_vec G v = Inr (matvec G v)"
  by (simp add: csr_mul_vec_def ncols_square)

lemma Sparse_generator_value:
  fixes c :: "'a::semiring_0 SparseOperatorCollection"
  assumes "sp_operators c \<noteq> []" "list_all (is_mat n n) (sp_operators c)"
    "sp_drift c = Some D" "is_mat n n D" "length s = length (sp_operators c)"
  shows "\<exists>G. obj_tensordot s (sp_operators c) = Inr (Some G) \<and> is_mat n n G
    \<and> (\<forall>i<n. \<forall>j<n. G ! i ! j = (\<Sum>k<length s. s ! k * sp_operators c ! k ! i ! j))
    \<and> Sparse_evaluate_generator c s = Inr (Some (mat_add G D))"
proof -
  from obj_tensordot_entries[OF assms(1,2,5)] obtain G where
    G: "obj_tensordot s (sp_operators c) = Inr (Some G)" "is_mat n n G"
    "\<forall>i<n. \<forall>j<n. G ! i ! j = (\<Sum>k<length s. s ! k * sp_operators c ! k ! i ! j)" by blast
  have "Sparse_evaluate_generator c s = Inr (Some (mat_add G D))"
    using G assms by (simp add: Sparse_evaluate_generator_def csr_add_same)
  with G show ?thesis by blast
qed

lemma Sparse_rhs_matrix_raises:
  fixes c :: "'a::semiring_0 SparseOperatorCollection"
  assumes "obj_tensordot s (sp_operators c) = Inr (Some G)" "is_mat n n G" "1 < n"
    "sp_drift c = Some D"
  shows "Sparse_rhs_matrix c s Y = Inl NotImplementedError"
proof -
  have "length G = n" using assms(2) by (rule is_mat_length)
  then have "\<And>x. G \<noteq> [[x]]" using assms(3) by auto
  then show ?thesis
    using assms(1,4) by (simp add: Sparse_rhs_matrix_def split: list.splits)
qed

lemma Sparse_rhs_vector_value:
  fixes c :: "'a::semiring_0 SparseOperatorCollection"
  assumes ne: "sp_operators c \<noteq> []" and all: "list_all (is_mat n n) (sp_operators c)"
    and d: "sp_drift c = Some D" "is_mat n n D" and len: "length s = length (sp_operators c)"
    and v: "length v = n"
    and G: "obj_tensordot s (sp_operators c) = Inr (Some G)"
  shows "Sparse_rhs_vector c s v = Inr (Some (Arr1 (matvec (mat_add G D) v)))"
proof -
  obtain a s' where s: "s = a # s'" using ne len by (cases s) auto
  obtain G0 Gs' where Gs: "sp_operators c = G0 # Gs'" using ne by (cases "sp_operators c") auto
  have G0: "is_mat n n G0" and Gs': "list_all (is_mat n n) Gs'" and len': "length s' = length Gs'"
    using all len s Gs by simp_all
  let ?x = "scal a G0" and ?xs = "map2 scal s' Gs'"
  have x: "is_mat n n ?x" using G0 by (rule scal_is_mat)
  have xs: "list_all (is_mat n n) ?xs" using Gs' by (rule map2_scal_all)
  have Gval: "G = foldl mat_add ?x ?xs"
    using G len by (simp add: obj_tensordot_def s Gs foldl_csr_add[OF xs x])
  have Gm: "is_mat n n G" unfolding Gval using foldl_mat_add[OF xs x] by simp
  have prods: "mapE (\<lambda>G. csr_mul_vec G v) (sp_operators c) = Inr (map (\<lambda>G. matvec G v) (sp_operators c))"
    by (rule mapE_all_Inr) (use all v in \<open>simp add: csr_mul_vec_square[where n=n] list_all_iff\<close>)
  have w: "map2 (\<lambda>a u. map ((*) a) u) s (map (\<lambda>G. matvec G v) (sp_operators c))
      = matvec ?x v # map (\<lambda>M. matvec M v) ?xs"
    using weighted_products[OF all len v] by (simp add: s Gs)
  have sum: "obj_sum (np_binop1 (+)) (map2 (\<lambda>a u. map ((*) a) u) s (map (\<lambda>G. matvec G v) (sp_operators c)))
      = Inr (Some (matvec G v))"
    unfolding w Gval obj_sum.simps foldl_vec_add[OF xs x v] by simp
  have fin: "np_binop1 (+) (matvec G v) (matvec D v) = Inr (matvec (mat_add G D) v)"
    using Gm d(2) v by (simp add: np_binop1_same matvec_length is_mat_length matvec_add[OF Gm d(2)])
  show ?thesis
    using len d v by (simp add: Sparse_rhs_vector_def prods sum fin csr_mul_vec_square[where n=n])
qed

lemma rint_error: "\<bar>rint x - x\<bar> \<le> 1 / 2"
proof -
  have "of_int \<lfloor>x\<rfloor> \<le> x" "x < of_int \<lfloor>x\<rfloor> + 1" by linarith+
  then show ?thesis by (auto simp: rint_def Let_def)
qed

lemma round_dec_error: "\<bar>round_dec d x - x\<bar> \<le> (1 / 2) * 10 powi (- d)"
proof -
  let ?p = "(10::real) powi d"
  have p: "0 < ?p" by (simp add: zero_less_power_int)
  have "round_dec d x - x = (rint (x * ?p) - x * ?p) / ?p"
    using p by (simp add: round_dec_def field_simps)
  then have "\<bar>round_dec d x - x\<bar> = \<bar>rint (x * ?p) - x * ?p\<bar> / ?p"
    using p by (simp add: abs_divide)
  also have "\<dots> \<le> (1 / 2) / ?p"
    using p rint_error[of "x * ?p"] by (intro divide_right_mono) simp_all
  also have "\<dots> = (1 / 2) * 10 powi (- d)"
    by (simp add: power_int_minus field_simps)
  finally show ?thesis .
qed

lemma np_round_error: "cmod (np_round d z - z) \<le> 10 powi (- d)"
proof -
  have "cmod (np_round d z - z) \<le> \<bar>Re (np_round d z - z)\<bar> + \<bar>Im (np_round d z - z)\<bar>"
    by (rule cmod_le)
  also have "\<dots> = \<bar>round_dec d (Re z) - Re z\<bar> + \<bar>round_dec d (Im z) - Im z\<bar>"
    by (simp add: np_round_def)
  also have "\<dots> \<le> (1 / 2) * 10 powi (- d) + (1 / 2) * 10 powi (- d)"
    by (intro add_mono round_dec_error)
  finally show ?thesis by simp
qed

lemma round_mat_is_mat: "is_mat r c M \<Longrightarrow> is_mat r c (round_mat d M)"
  by (rule is_matI) (simp_all add: round_mat_def is_mat_length is_mat_row)

lemma round_mat_entry: "is_mat r c M \<Longrightarrow> i < r \<Longrightarrow> j < c \<Longrightarrow> round_mat d M ! i ! j = np_round d (M ! i ! j)"
  by (simp add: round_mat_def is_mat_length is_mat_row)

lemma weighted_error:
  fixes s :: "complex list"
  assumes "\<And>k. k < length s \<Longrightarrow> cmod (r k - g k) \<le> e" "cmod (rd - gd) \<le> e"
  shows "cmod (((\<Sum>k<length s. s ! k * r k) + rd) - ((\<Sum>k<length s. s ! k * g k) + gd))
    \<le> (1 + (\<Sum>k<length s. cmod (s ! k))) * e"
proof -
  have "((\<Sum>k<length s. s ! k * r k) + rd) - ((\<Sum>k<length s. s ! k * g k) + gd)
      = (\<Sum>k<length s. s ! k * (r k - g k)) + (rd - gd)"
    by (simp add: sum_subtractf algebra_simps)
  also have "cmod \<dots> \<le> cmod (\<Sum>k<length s. s ! k * (r k - g k)) + cmod (rd - gd)"
    by (rule norm_triangle_ineq)
  also have "\<dots> \<le> (\<Sum>k<length s. cmod (s ! k) * e) + e"
  proof (rule add_mono)
    have "cmod (\<Sum>k<length s. s ! k * (r k - g k)) \<le> (\<Sum>k<length s. cmod (s ! k * (r k - g k)))"
      by (rule norm_sum)
    also have "\<dots> \<le> (\<Sum>k<length s. cmod (s ! k) * e)"
      by (rule sum_mono) (simp add: norm_mult assms(1) mult_left_mono)
    finally show "cmod (\<Sum>k<length s. s ! k * (r k - g k)) \<le> (\<Sum>k<length s. cmod (s ! k) * e)" .
  qed (rule assms(2))
  also have "\<dots> = (1 + (\<Sum>k<length s. cmod (s ! k))) * e"
    by (simp add: sum_distrib_left algebra_simps)
  finally show ?thesis .
qed

lemma matmul_square: "is_mat n n A \<Longrightarrow> is_mat n n B \<Longrightarrow> is_mat n n (matmul A B)"
proof (cases "n = 0")
  case True
  assume "is_mat n n A"
  with True show ?thesis by (simp add: is_mat_def matmul_def)
next
  case False
  assume "is_mat n n A" "is_mat n n B"
  with False show ?thesis by (simp add: matmul_is_mat)
qed

lemma matmul_square_entry:
  "is_mat n n A \<Longrightarrow> is_mat n n B \<Longrightarrow> i < n \<Longrightarrow> j < n \<Longrightarrow>
   matmul A B ! i ! j = (\<Sum>l<n. A ! i ! l * B ! l ! j)"
  by (rule matmul_entry) auto

lemma dagger_is_mat: "is_mat r c M \<Longrightarrow> is_mat c r (dagger c M)"
  by (rule is_matI) (simp_all add: dagger_def transpose_mat_def col_def is_mat_length)

lemma neg_scal: "map (map uminus) (X :: 'a::ring_1 mat) = scal (- 1) X"
  by (simp add: scal_def)

lemma mat_sum_is_mat: "list_all (is_mat n n) Ms \<Longrightarrow> is_mat n n (mat_sum n Ms)"
  using foldr_mat_add[of n n Ms] by (simp add: mat_sum_def)

lemma mat_sum_entry:
  "list_all (is_mat n n) Ms \<Longrightarrow> i < n \<Longrightarrow> j < n \<Longrightarrow>
   mat_sum n Ms ! i ! j = (\<Sum>k<length Ms. Ms ! k ! i ! j)"
  using foldr_mat_add[of n n Ms] by (simp add: mat_sum_def)

lemma weighted_sum_entry:
  assumes "list_all (is_mat n n) Ms" "length g = length Ms" "i < n" "j < n"
  shows "mat_sum n (map2 scal g Ms) ! i ! j = (\<Sum>k<length Ms. g ! k * Ms ! k ! i ! j)"
proof -
  have "mat_sum n (map2 scal g Ms) ! i ! j
      = (\<Sum>k<length (map2 scal g Ms). map2 scal g Ms ! k ! i ! j)"
    by (rule mat_sum_entry) (use assms in \<open>simp_all add: map2_scal_all\<close>)
  also have "\<dots> = (\<Sum>k<length Ms. g ! k * Ms ! k ! i ! j)"
  proof (rule sum.cong)
    show "{..<length (map2 scal g Ms)} = {..<length Ms}" using assms(2) by simp
  next
    fix k assume "k \<in> {..<length Ms}"
    then have "k < length Ms" by simp
    from map2_scal_entry[OF assms(1,2) this assms(3,4)]
    show "map2 scal g Ms ! k ! i ! j = g ! k * Ms ! k ! i ! j" .
  qed
  finally show ?thesis .
qed

lemma weighted_sum_is_mat:
  "list_all (is_mat n n) Ms \<Longrightarrow> is_mat n n (mat_sum n (map2 scal g Ms))"
  by (rule mat_sum_is_mat) (rule map2_scal_all)

lemma matmul_add_left_entry:
  fixes X :: "'a::comm_ring_1 mat"
  assumes "is_mat n n X" "is_mat n n Y" "is_mat n n R" "i < n" "j < n"
  shows "matmul (mat_add X Y) R ! i ! j = matmul X R ! i ! j + matmul Y R ! i ! j"
proof -
  have "matmul (mat_add X Y) R ! i ! j = (\<Sum>l<n. mat_add X Y ! i ! l * R ! l ! j)"
    using assms by (simp add: matmul_square_entry mat_add_is_mat)
  also have "\<dots> = (\<Sum>l<n. (X ! i ! l + Y ! i ! l) * R ! l ! j)"
    by (rule sum.cong) (use assms in \<open>simp_all add: mat_add_entry[where r=n and c=n]\<close>)
  finally show ?thesis
    using assms by (simp add: matmul_square_entry distrib_right sum.distrib)
qed

lemma matmul_add_right_entry:
  fixes X :: "'a::comm_ring_1 mat"
  assumes "is_mat n n X" "is_mat n n Y" "is_mat n n R" "i < n" "j < n"
  shows "matmul R (mat_add X Y) ! i ! j = matmul R X ! i ! j + matmul R Y ! i ! j"
proof -
  have "matmul R (mat_add X Y) ! i ! j = (\<Sum>l<n. R ! i ! l * mat_add X Y ! l ! j)"
    using assms by (simp add: matmul_square_entry mat_add_is_mat)
  also have "\<dots> = (\<Sum>l<n. R ! i ! l * (X ! l ! j + Y ! l ! j))"
    by (rule sum.cong) (use assms in \<open>simp_all add: mat_add_entry[where r=n and c=n]\<close>)
  finally show ?thesis
    using assms by (simp add: matmul_square_entry distrib_left sum.distrib)
qed

lemma matmul_scal_left_entry:
  fixes X :: "'a::comm_ring_1 mat"
  assumes "is_mat n n X" "is_mat n n R" "i < n" "j < n"
  shows "matmul (scal a X) R ! i ! j = a * matmul X R ! i ! j"
proof -
  have "matmul (scal a X) R ! i ! j = (\<Sum>l<n. scal a X ! i ! l * R ! l ! j)"
    using assms by (simp add: matmul_square_entry scal_is_mat)
  also have "\<dots> = (\<Sum>l<n. a * (X ! i ! l * R ! l ! j))"
    by (rule sum.cong) (use assms in \<open>simp_all add: scal_entry[where r=n and c=n] mult.assoc\<close>)
  finally show ?thesis
    using assms by (simp add: matmul_square_entry sum_distrib_left)
qed

lemma matmul_scal_right_entry:
  fixes X :: "'a::comm_ring_1 mat"
  assumes "is_mat n n X" "is_mat n n R" "i < n" "j < n"
  shows "matmul R (scal a X) ! i ! j = a * matmul R X ! i ! j"
proof -
  have "matmul R (scal a X) ! i ! j = (\<Sum>l<n. R ! i ! l * scal a X ! l ! j)"
    using assms by (simp add: matmul_square_entry scal_is_mat)
  also have "\<dots> = (\<Sum>l<n. a * (R ! i ! l * X ! l ! j))"
    by (rule sum.cong) (use assms in \<open>simp_all add: scal_entry[where r=n and c=n] mult.left_commute\<close>)
  finally show ?thesis
    using assms by (simp add: matmul_square_entry sum_distrib_left)
qed

lemma matmul_weighted_sum_left_entry:
  fixes Ms :: "'a::comm_ring_1 mat list"
  assumes "list_all (is_mat n n) Ms" "length g = length Ms" "is_mat n n R" "i < n" "j < n"
  shows "matmul (mat_sum n (map2 scal g Ms)) R ! i ! j
    = (\<Sum>k<length Ms. g ! k * matmul (Ms ! k) R ! i ! j)"
proof -
  have "matmul (mat_sum n (map2 scal g Ms)) R ! i ! j
      = (\<Sum>l<n. mat_sum n (map2 scal g Ms) ! i ! l * R ! l ! j)"
    using assms by (simp add: matmul_square_entry weighted_sum_is_mat)
  also have "\<dots> = (\<Sum>l<n. (\<Sum>k<length Ms. g ! k * Ms ! k ! i ! l) * R ! l ! j)"
    by (rule sum.cong) (use assms in \<open>simp_all add: weighted_sum_entry\<close>)
  also have "\<dots> = (\<Sum>l<n. \<Sum>k<length Ms. g ! k * (Ms ! k ! i ! l * R ! l ! j))"
    by (simp add: sum_distrib_right mult.assoc)
  also have "\<dots> = (\<Sum>k<length Ms. \<Sum>l<n. g ! k * (Ms ! k ! i ! l * R ! l ! j))"
    by (rule sum.swap)
  also have "\<dots> = (\<Sum>k<length Ms. g ! k * matmul (Ms ! k) R ! i ! j)"
  proof (rule sum.cong)
    fix k assume "k \<in> {..<length Ms}"
    then have "is_mat n n (Ms ! k)" using assms(1) by (simp add: list_all_length)
    then show "(\<Sum>l<n. g ! k * (Ms ! k ! i ! l * R ! l ! j)) = g ! k * matmul (Ms ! k) R ! i ! j"
      using assms by (simp add: matmul_square_entry sum_distrib_left)
  qed simp
  finally show ?thesis .
qed

lemma matmul_weighted_sum_right_entry:
  fixes Ms :: "'a::comm_ring_1 mat list"
  assumes "list_all (is_mat n n) Ms" "length g = length Ms" "is_mat n n R" "i < n" "j < n"
  shows "matmul R (mat_sum n (map2 scal g Ms)) ! i ! j
    = (\<Sum>k<length Ms. g ! k * matmul R (Ms ! k) ! i ! j)"
proof -
  have "matmul R (mat_sum n (map2 scal g Ms)) ! i ! j
      = (\<Sum>l<n. R ! i ! l * mat_sum n (map2 scal g Ms) ! l ! j)"
    using assms by (simp add: matmul_square_entry weighted_sum_is_mat)
  also have "\<dots> = (\<Sum>l<n. R ! i ! l * (\<Sum>k<length Ms. g ! k * Ms ! k ! l ! j))"
    by (rule sum.cong) (use assms in \<open>simp_all add: weighted_sum_entry\<close>)
  also have "\<dots> = (\<Sum>l<n. \<Sum>k<length Ms. g ! k * (R ! i ! l * Ms ! k ! l ! j))"
    by (simp add: sum_distrib_left mult.left_commute)
  also have "\<dots> = (\<Sum>k<length Ms. \<Sum>l<n. g ! k * (R ! i ! l * Ms ! k ! l ! j))"
    by (rule sum.swap)
  also have "\<dots> = (\<Sum>k<length Ms. g ! k * matmul R (Ms ! k) ! i ! j)"
  proof (rule sum.cong)
    fix k assume "k \<in> {..<length Ms}"
    then have "is_mat n n (Ms ! k)" using assms(1) by (simp add: list_all_length)
    then show "(\<Sum>l<n. g ! k * (R ! i ! l * Ms ! k ! l ! j)) = g ! k * matmul R (Ms ! k) ! i ! j"
      using assms by (simp add: matmul_square_entry sum_distrib_left)
  qed simp
  finally show ?thesis .
qed

lemma commutator_is_mat:
  fixes A :: "'a::comm_ring_1 mat"
  shows "is_mat n n A \<Longrightarrow> is_mat n n B \<Longrightarrow> is_mat n n (commutator A B)"
  by (simp add: commutator_def mat_sub_is_mat matmul_square)

lemma anticommutator_is_mat:
  fixes A :: "'a::comm_ring_1 mat"
  shows "is_mat n n A \<Longrightarrow> is_mat n n B \<Longrightarrow> is_mat n n (anticommutator A B)"
  by (simp add: anticommutator_def mat_add_is_mat matmul_square)

lemma dissipator_term_is_mat:
  assumes "is_mat n n L" "is_mat n n R"
  shows "is_mat n n (dissipator_term n L R)"
  using assms
  by (simp add: dissipator_term_def mat_sub_is_mat matmul_square dagger_is_mat scal_is_mat
      anticommutator_is_mat)

lemma dissipator_term_entry:
  assumes "is_mat n n L" "is_mat n n R" "i < n" "j < n"
  shows "dissipator_term n L R ! i ! j
    = matmul L (matmul R (dagger n L)) ! i ! j
      - (1 / 2) * (matmul (matmul (dagger n L) L) R ! i ! j + matmul R (matmul (dagger n L) L) ! i ! j)"
proof -
  have d: "is_mat n n (dagger n L)" using assms(1) by (rule dagger_is_mat)
  have p: "is_mat n n (matmul (dagger n L) L)" using d assms(1) by (rule matmul_square)
  have a: "is_mat n n (anticommutator (matmul (dagger n L) L) R)"
    using p assms(2) by (rule anticommutator_is_mat)
  have s: "is_mat n n (matmul L (matmul R (dagger n L)))"
    using assms d by (simp add: matmul_square)
  have "dissipator_term n L R ! i ! j
      = matmul L (matmul R (dagger n L)) ! i ! j
        - scal (1 / 2) (anticommutator (matmul (dagger n L) L) R) ! i ! j"
    unfolding dissipator_term_def
    by (rule mat_sub_entry[OF s scal_is_mat[OF a] assms(3,4)])
  also have "scal (1 / 2) (anticommutator (matmul (dagger n L) L) R) ! i ! j
      = (1 / 2) * anticommutator (matmul (dagger n L) L) R ! i ! j"
    by (rule scal_entry[OF a assms(3,4)])
  also have "anticommutator (matmul (dagger n L) L) R ! i ! j
      = matmul (matmul (dagger n L) L) R ! i ! j + matmul R (matmul (dagger n L) L) ! i ! j"
    unfolding anticommutator_def
    by (rule mat_add_entry[OF matmul_square[OF p assms(2)] matmul_square[OF assms(2) p] assms(3,4)])
  finally show ?thesis .
qed

lemma commutator_entry:
  fixes A :: "'a::comm_ring_1 mat"
  assumes "is_mat n n A" "is_mat n n B" "i < n" "j < n"
  shows "commutator A B ! i ! j = matmul A B ! i ! j - matmul B A ! i ! j"
  unfolding commutator_def
  by (rule mat_sub_entry[OF matmul_square[OF assms(1,2)] matmul_square[OF assms(2,1)] assms(3,4)])

lemma map2_weighted:
  "map2 (\<lambda>gj L. scal gj (h L)) g Ls = map2 scal g (map h Ls)"
  by (auto simp add: zip_map2)

lemma lindblad_scalar_identity:
  fixes a b :: complex and p q s g :: "nat \<Rightarrow> complex"
  shows "(- \<i> * a + (- 1 / 2) * (\<Sum>k<m. g k * p k))
          + (\<i> * b + (- 1 / 2) * (\<Sum>k<m. g k * q k))
          + (\<Sum>k<m. g k * s k)
        = - \<i> * (a - b) + (\<Sum>k<m. g k * (s k - (1 / 2) * (p k + q k)))"
proof -
  have "(\<Sum>k<m. g k * (s k - (1 / 2) * (p k + q k)))
      = (\<Sum>k<m. g k * s k - ((1 / 2) * (g k * p k) + (1 / 2) * (g k * q k)))"
    by (rule sum.cong) (simp_all add: right_diff_distrib distrib_left)
  also have "\<dots> = (\<Sum>k<m. g k * s k) - ((\<Sum>k<m. (1 / 2) * (g k * p k)) + (\<Sum>k<m. (1 / 2) * (g k * q k)))"
    by (simp only: sum_subtractf sum.distrib)
  also have "\<dots> = (\<Sum>k<m. g k * s k) - ((1 / 2) * (\<Sum>k<m. g k * p k) + (1 / 2) * (\<Sum>k<m. g k * q k))"
    by (simp only: sum_distrib_left)
  finally show ?thesis by (simp add: right_diff_distrib)
qed

lemma lindblad_core:
  assumes Hm: "is_mat n n Hm" and Ls: "list_all (is_mat n n) Ls" and g: "length g = length Ls"
    and R: "is_mat n n R"
  defines "Ps \<equiv> map2 matmul (map (dagger n) Ls) Ls"
    and "Ss \<equiv> map2 (\<lambda>Lj Ldj. matmul Lj (matmul R Ldj)) Ls (map (dagger n) Ls)"
  defines "B \<equiv> scal (- \<i>) Hm"
    and "A \<equiv> scal (- 1 / 2) (mat_sum n (map2 scal g Ps))"
  shows "mat_add (mat_add (matmul (mat_add B A) R) (matmul R (mat_add (map (map uminus) B) A)))
            (mat_sum n (map2 scal g Ss))
         = mat_add (scal (- \<i>) (commutator Hm R))
             (mat_sum n (map2 (\<lambda>gj L. scal gj (dissipator_term n L R)) g Ls))"
proof -
  let ?m = "length Ls"
  have Lk: "is_mat n n (Ls ! k)" if "k < ?m" for k
    using Ls that by (simp add: list_all_length)
  have Dk: "is_mat n n (dagger n (Ls ! k))" if "k < ?m" for k
    using Lk[OF that] by (rule dagger_is_mat)
  have Ps_len: "length Ps = ?m" by (simp add: Ps_def)
  have Ss_len: "length Ss = ?m" by (simp add: Ss_def)
  have Ps_nth: "Ps ! k = matmul (dagger n (Ls ! k)) (Ls ! k)" if "k < ?m" for k
    using that by (simp add: Ps_def)
  have Ss_nth: "Ss ! k = matmul (Ls ! k) (matmul R (dagger n (Ls ! k)))" if "k < ?m" for k
    using that by (simp add: Ss_def)
  have Ps_all: "list_all (is_mat n n) Ps"
    unfolding list_all_length Ps_len by (simp add: Ps_nth matmul_square Dk Lk)
  have Ss_all: "list_all (is_mat n n) Ss"
    unfolding list_all_length Ss_len by (simp add: Ss_nth matmul_square Dk Lk R)
  let ?T = "mat_sum n (map2 scal g Ps)"
  let ?C = "mat_sum n (map2 scal g Ss)"
  let ?nB = "map (map uminus) B"
  let ?Ds = "map (\<lambda>L. dissipator_term n L R) Ls"
  have gP: "length g = length Ps" and gS: "length g = length Ss" using g Ps_len Ss_len by simp_all
  have T: "is_mat n n ?T" using Ps_all by (rule weighted_sum_is_mat)
  have C: "is_mat n n ?C" using Ss_all by (rule weighted_sum_is_mat)
  have Bm: "is_mat n n B" unfolding B_def using Hm by (rule scal_is_mat)
  have Am: "is_mat n n A" unfolding A_def using T by (rule scal_is_mat)
  have nB: "?nB = scal (- 1) B" by (rule neg_scal)
  have nBm: "is_mat n n ?nB" unfolding nB using Bm by (rule scal_is_mat)
  have lm: "is_mat n n (mat_add B A)" using Bm Am by (rule mat_add_is_mat)
  have rm: "is_mat n n (mat_add ?nB A)" using nBm Am by (rule mat_add_is_mat)
  have left: "is_mat n n (matmul (mat_add B A) R)" using lm R by (rule matmul_square)
  have right: "is_mat n n (matmul R (mat_add ?nB A))" using R rm by (rule matmul_square)
  have lr: "is_mat n n (mat_add (matmul (mat_add B A) R) (matmul R (mat_add ?nB A)))"
    using left right by (rule mat_add_is_mat)
  have Ds_all: "list_all (is_mat n n) ?Ds"
    using Ls R by (simp add: list_all_iff dissipator_term_is_mat)
  have gD: "length g = length ?Ds" using g by simp
  have com: "is_mat n n (commutator Hm R)" using Hm R by (rule commutator_is_mat)
  have W: "is_mat n n (mat_sum n (map2 scal g ?Ds))" using Ds_all by (rule weighted_sum_is_mat)
  show ?thesis
    unfolding map2_weighted[where h="\<lambda>L. dissipator_term n L R"]
  proof (rule mat_eqI[where r=n and c=n])
    show "is_mat n n (mat_add (mat_add (matmul (mat_add B A) R) (matmul R (mat_add ?nB A))) ?C)"
      using lr C by (rule mat_add_is_mat)
    show "is_mat n n (mat_add (scal (- \<i>) (commutator Hm R)) (mat_sum n (map2 scal g ?Ds)))"
      using scal_is_mat[OF com] W by (rule mat_add_is_mat)
  next
    fix i j assume ij: "i < n" "j < n"
    let ?a = "matmul Hm R ! i ! j" and ?b = "matmul R Hm ! i ! j"
    let ?p = "\<lambda>k. matmul (Ps ! k) R ! i ! j" and ?q = "\<lambda>k. matmul R (Ps ! k) ! i ! j"
    let ?s = "\<lambda>k. Ss ! k ! i ! j"
    have e1: "matmul (mat_add B A) R ! i ! j = - \<i> * ?a + (- 1 / 2) * (\<Sum>k<?m. g ! k * ?p k)"
    proof -
      have "matmul (mat_add B A) R ! i ! j = matmul B R ! i ! j + matmul A R ! i ! j"
        by (rule matmul_add_left_entry[OF Bm Am R ij])
      also have "matmul B R ! i ! j = - \<i> * ?a"
        unfolding B_def by (rule matmul_scal_left_entry[OF Hm R ij])
      also have "matmul A R ! i ! j = (- 1 / 2) * matmul ?T R ! i ! j"
        unfolding A_def by (rule matmul_scal_left_entry[OF T R ij])
      also have "matmul ?T R ! i ! j = (\<Sum>k<length Ps. g ! k * ?p k)"
        by (rule matmul_weighted_sum_left_entry[OF Ps_all gP R ij])
      finally show ?thesis by (simp add: Ps_len)
    qed
    have e2: "matmul R (mat_add ?nB A) ! i ! j = \<i> * ?b + (- 1 / 2) * (\<Sum>k<?m. g ! k * ?q k)"
    proof -
      have "matmul R (mat_add ?nB A) ! i ! j = matmul R ?nB ! i ! j + matmul R A ! i ! j"
        by (rule matmul_add_right_entry[OF nBm Am R ij])
      also have "matmul R ?nB ! i ! j = - 1 * matmul R B ! i ! j"
        unfolding nB by (rule matmul_scal_right_entry[OF Bm R ij])
      also have "matmul R B ! i ! j = - \<i> * ?b"
        unfolding B_def by (rule matmul_scal_right_entry[OF Hm R ij])
      also have "matmul R A ! i ! j = (- 1 / 2) * matmul R ?T ! i ! j"
        unfolding A_def by (rule matmul_scal_right_entry[OF T R ij])
      also have "matmul R ?T ! i ! j = (\<Sum>k<length Ps. g ! k * ?q k)"
        by (rule matmul_weighted_sum_right_entry[OF Ps_all gP R ij])
      finally show ?thesis by (simp add: Ps_len)
    qed
    have e3: "?C ! i ! j = (\<Sum>k<?m. g ! k * ?s k)"
      using weighted_sum_entry[OF Ss_all gS ij] by (simp add: Ss_len)
    have e4: "scal (- \<i>) (commutator Hm R) ! i ! j = - \<i> * (?a - ?b)"
      using scal_entry[OF com ij] commutator_entry[OF Hm R ij] by simp
    have e5: "mat_sum n (map2 scal g ?Ds) ! i ! j
        = (\<Sum>k<?m. g ! k * (?s k - (1 / 2) * (?p k + ?q k)))"
    proof -
      have "mat_sum n (map2 scal g ?Ds) ! i ! j = (\<Sum>k<length ?Ds. g ! k * ?Ds ! k ! i ! j)"
        by (rule weighted_sum_entry[OF Ds_all gD ij])
      also have "\<dots> = (\<Sum>k<?m. g ! k * (?s k - (1 / 2) * (?p k + ?q k)))"
      proof (rule sum.cong)
        fix k assume "k \<in> {..<?m}"
        then have k: "k < ?m" by simp
        show "g ! k * ?Ds ! k ! i ! j = g ! k * (?s k - (1 / 2) * (?p k + ?q k))"
          using k dissipator_term_entry[OF Lk[OF k] R ij] by (simp add: Ps_nth Ss_nth)
      qed simp
      finally show ?thesis .
    qed
    have "mat_add (mat_add (matmul (mat_add B A) R) (matmul R (mat_add ?nB A))) ?C ! i ! j
        = (- \<i> * ?a + (- 1 / 2) * (\<Sum>k<?m. g ! k * ?p k))
          + (\<i> * ?b + (- 1 / 2) * (\<Sum>k<?m. g ! k * ?q k))
          + (\<Sum>k<?m. g ! k * ?s k)"
      using mat_add_entry[OF lr C ij] mat_add_entry[OF left right ij] e1 e2 e3 by simp
    also have "\<dots> = - \<i> * (?a - ?b) + (\<Sum>k<?m. g ! k * (?s k - (1 / 2) * (?p k + ?q k)))"
      by (rule lindblad_scalar_identity)
    also have "\<dots> = mat_add (scal (- \<i>) (commutator Hm R)) (mat_sum n (map2 scal g ?Ds)) ! i ! j"
      using mat_add_entry[OF scal_is_mat[OF com] W ij] e4 e5 by simp
    finally show "mat_add (mat_add (matmul (mat_add B A) R) (matmul R (mat_add ?nB A))) ?C ! i ! j
        = mat_add (scal (- \<i>) (commutator Hm R)) (mat_sum n (map2 scal g ?Ds)) ! i ! j" .
  qed
qed

lemma np_tensordot_value:
  "inner A = (n, n) \<Longrightarrow> length s = length (items A) \<Longrightarrow>
   np_tensordot s A = Inr (mat_sum n (map2 scal s (items A)))"
  by (simp add: np_tensordot_def mat_sum_def)

lemma np_binop2_add: "is_mat r c A \<Longrightarrow> is_mat r c B \<Longrightarrow> np_binop2 (+) A B = Inr (mat_add A B)"
  by (simp add: np_binop2_same mat_add_def)

lemma np_binop2_sub: "is_mat r c A \<Longrightarrow> is_mat r c B \<Longrightarrow> np_binop2 (-) A B = Inr (mat_sub A B)"
  by (simp add: np_binop2_same mat_sub_def)

lemma np_matmul2_square:
  "is_mat n n A \<Longrightarrow> is_mat n n B \<Longrightarrow> np_matmul2 A B = Inr (matmul A B)"
  by (simp add: np_matmul2_def ncols_square is_mat_length)

lemma ncols3_square: "list_all (is_mat n n) Xs \<Longrightarrow> ncols3 Xs = (if Xs = [] then 0 else n)"
  by (cases Xs) (auto simp add: ncols3_def ncols_square)

lemma ncols_stack: "list_all (is_mat n n) Xs \<Longrightarrow> ncols Xs = (if Xs = [] then 0 else n)"
  by (cases Xs) (auto simp add: ncols_def is_mat_length)

lemma map2_bc_zip_mats:
  assumes "list_all (is_mat n n) Xs" "list_all (is_mat n n) Ys"
  shows "map2 (bc_zip (bc_zip f)) Xs Ys = map2 (map2 (map2 f)) Xs Ys"
proof -
  have "bc_zip (bc_zip f) X Y = map2 (map2 f) X Y" if "(X, Y) \<in> set (zip Xs Ys)" for X Y
  proof -
    from that have "X \<in> set Xs" "Y \<in> set Ys" by (auto dest: set_zip_leftD set_zip_rightD)
    then have XY: "is_mat n n X" "is_mat n n Y" using assms by (simp_all add: list_all_iff)
    then show ?thesis by (simp add: bc_zip_same is_mat_length map2_rows_same[OF XY])
  qed
  then show ?thesis by (auto intro!: map_cong)
qed

lemma np_binop3_add:
  assumes "list_all (is_mat n n) Xs" "list_all (is_mat n n) Ys" "length Xs = length Ys"
  shows "np_binop3 (+) Xs Ys = Inr (map2 mat_add Xs Ys)"
proof -
  have "map2 (map2 (map2 (+))) Xs Ys = map2 mat_add Xs Ys"
    by (rule map_cong) (auto simp: mat_add_def)
  moreover have "Xs = [] \<longleftrightarrow> Ys = []" using assms(3) by auto
  ultimately show ?thesis
    using assms
    by (simp add: np_binop3_def bc_ok_def ncols3_square ncols_stack bc_zip_same
        map2_bc_zip_mats[OF assms(1,2)])
qed

lemma hamiltonian_of_is_mat:
  "list_all (is_mat n n) Hs \<Longrightarrow> is_mat n n Hd \<Longrightarrow> is_mat n n (hamiltonian_of n Hs Hd s)"
  by (simp add: hamiltonian_of_def mat_add_is_mat weighted_sum_is_mat)

lemma evaluate_hamiltonian_value:
  assumes "wf_array3 H" "inner H = (n, n)" "is_mat n n Hd" "length s = length (items H)"
    "hamiltonian_operators c = H" "lb_drift c = Some Hd"
  shows "DenseLindblad_evaluate_hamiltonian c s = Inr (hamiltonian_of n (items H) Hd s)"
proof -
  have all: "list_all (is_mat n n) (items H)" using assms by (simp add: wf_array3_def)
  have T: "is_mat n n (mat_sum n (map2 scal s (items H)))" using all by (rule weighted_sum_is_mat)
  show ?thesis
    using assms
    by (simp add: DenseLindblad_evaluate_hamiltonian_def np_tensordot_value bindE_Inr
        np_binop2_add[OF T assms(3)] hamiltonian_of_def)
qed

lemma dissipative_pieces:
  assumes Hm: "is_mat n n Hm" and L: "wf_array3 L" "inner L = (n, n)"
    and g: "length g = length (items L)"
  shows "np_tensordot g (matmul3 (conj3 L) L)
           = Inr (mat_sum n (map2 scal g (map2 matmul (map (dagger n) (items L)) (items L))))"
    and "np_binop2 (+) (scal (- \<i>) Hm)
           (scal (- 1 / 2) (mat_sum n (map2 scal g (map2 matmul (map (dagger n) (items L)) (items L)))))
           = Inr (left_of n Hm (items L) g)"
    and "np_binop2 (+) (map (map uminus) (scal (- \<i>) Hm))
           (scal (- 1 / 2) (mat_sum n (map2 scal g (map2 matmul (map (dagger n) (items L)) (items L)))))
           = Inr (right_of n Hm (items L) g)"
    and "is_mat n n (left_of n Hm (items L) g)"
    and "is_mat n n (right_of n Hm (items L) g)"
proof -
  let ?Ls = "items L"
  let ?Ps = "map2 matmul (map (dagger n) ?Ls) ?Ls"
  let ?A = "scal (- 1 / 2) (mat_sum n (map2 scal g ?Ps))"
  let ?B = "scal (- \<i>) Hm"
  have Ls: "list_all (is_mat n n) ?Ls" using L by (simp add: wf_array3_def)
  have Lk: "is_mat n n (?Ls ! k)" if "k < length ?Ls" for k
    using Ls that by (simp add: list_all_length)
  have Dk: "is_mat n n (dagger n (?Ls ! k))" if "k < length ?Ls" for k
    using Lk[OF that] by (rule dagger_is_mat)
  have Ps_all: "list_all (is_mat n n) ?Ps"
    unfolding list_all_length by (simp add: matmul_square Dk Lk)
  have Bm: "is_mat n n ?B" using Hm by (rule scal_is_mat)
  have Am: "is_mat n n ?A" using Ps_all by (intro scal_is_mat weighted_sum_is_mat)
  have nBm: "is_mat n n (map (map uminus) ?B)" unfolding neg_scal using Bm by (rule scal_is_mat)
  show "np_tensordot g (matmul3 (conj3 L) L) = Inr (mat_sum n (map2 scal g ?Ps))"
    using L(2) g by (simp add: np_tensordot_def mat_sum_def matmul3_def conj3_def)
  show "np_binop2 (+) ?B ?A = Inr (left_of n Hm ?Ls g)"
    unfolding left_of_def by (rule np_binop2_add[OF Bm Am])
  show "np_binop2 (+) (map (map uminus) ?B) ?A = Inr (right_of n Hm ?Ls g)"
    unfolding right_of_def by (rule np_binop2_add[OF nBm Am])
  show "is_mat n n (left_of n Hm ?Ls g)"
    unfolding left_of_def using Bm Am by (rule mat_add_is_mat)
  show "is_mat n n (right_of n Hm ?Ls g)"
    unfolding right_of_def using nBm Am by (rule mat_add_is_mat)
qed

lemma jump_pieces:
  assumes L: "wf_array3 L" "inner L = (n, n)" and g: "length g = length (items L)"
    and R: "is_mat n n R"
  shows "sandwich L (conj3 L) R = Inr (sandwiched n (items L) R)"
    and "np_tensordot g (sandwiched n (items L) R) = Inr (jump_of n (items L) g R)"
    and "is_mat n n (jump_of n (items L) g R)"
proof -
  let ?Ls = "items L"
  let ?Ss = "map2 (\<lambda>Lj Ldj. matmul Lj (matmul R Ldj)) ?Ls (map (dagger n) ?Ls)"
  have Ls: "list_all (is_mat n n) ?Ls" using L by (simp add: wf_array3_def)
  have Lk: "is_mat n n (?Ls ! k)" if "k < length ?Ls" for k
    using Ls that by (simp add: list_all_length)
  have Dk: "is_mat n n (dagger n (?Ls ! k))" if "k < length ?Ls" for k
    using Lk[OF that] by (rule dagger_is_mat)
  have Ss_all: "list_all (is_mat n n) ?Ss"
    unfolding list_all_length by (simp add: matmul_square Dk Lk R)
  show "sandwich L (conj3 L) R = Inr (sandwiched n ?Ls R)"
    using L(2) R by (simp add: sandwich_def sandwiched_def conj3_def ncols_square is_mat_length)
  show "np_tensordot g (sandwiched n ?Ls R) = Inr (jump_of n ?Ls g R)"
    using g by (simp add: sandwiched_def np_tensordot_def mat_sum_def jump_of_def)
  show "is_mat n n (jump_of n ?Ls g R)"
    unfolding jump_of_def using Ss_all by (rule weighted_sum_is_mat)
qed

lemma lindblad_equation_pieces:
  assumes "list_all (is_mat n n) Hs" "is_mat n n Hd" "list_all (is_mat n n) Ls"
    "length g = length Ls" "is_mat n n R"
  shows "mat_add (mat_add (matmul (left_of n (hamiltonian_of n Hs Hd s) Ls g) R)
                  (matmul R (right_of n (hamiltonian_of n Hs Hd s) Ls g)))
           (jump_of n Ls g R)
         = lindblad_equation n Hs Hd Ls s g R"
  unfolding left_of_def right_of_def jump_of_def lindblad_equation_def
  by (rule lindblad_core[OF hamiltonian_of_is_mat[OF assms(1,2)] assms(3,4,5)])


lemma DenseLindblad_rhs_single:
  assumes H: "wf_array3 H" "inner H = (n, n)" and Hd: "is_mat n n Hd"
    and L: "wf_array3 L" "inner L = (n, n)"
    and s: "length s = length (items H)" and g: "length g = length (items L)"
    and R: "is_mat n n R"
  shows "bindE (DenseLindbladCollection_init H (Some Hd) (Some L))
           (\<lambda>c. DenseLindblad_evaluate_rhs c (s, g) (Rho R))
         = Inr (Rho (lindblad_equation n (items H) Hd (items L) s g R))"
proof -
  let ?c = "\<lparr>hamiltonian_operators = H, dissipator_operators = Some L,
      dissipator_operators_conj = Some (conj3 L),
      dissipator_products = Some (matmul3 (conj3 L) L), lb_drift = Some Hd\<rparr>"
  let ?Hm = "hamiltonian_of n (items H) Hd s"
  have Hs: "list_all (is_mat n n) (items H)" using H by (simp add: wf_array3_def)
  have Ls: "list_all (is_mat n n) (items L)" using L by (simp add: wf_array3_def)
  have Hm: "is_mat n n ?Hm" using Hs Hd by (rule hamiltonian_of_is_mat)
  have ham: "DenseLindblad_evaluate_hamiltonian ?c s = Inr ?Hm"
    by (rule evaluate_hamiltonian_value[OF H Hd s]) simp_all
  note dp = dissipative_pieces[OF Hm L g]
  note jp = jump_pieces[OF L g R]
  have l: "is_mat n n (matmul (left_of n ?Hm (items L) g) R)"
    using dp(4) R by (rule matmul_square)
  have r: "is_mat n n (matmul R (right_of n ?Hm (items L) g))"
    using R dp(5) by (rule matmul_square)
  have "DenseLindblad_evaluate_rhs ?c (s, g) (Rho R)
      = Inr (Rho (mat_add (mat_add (matmul (left_of n ?Hm (items L) g) R)
                  (matmul R (right_of n ?Hm (items L) g))) (jump_of n (items L) g R)))"
    by (simp only: DenseLindblad_evaluate_rhs_def ham bindE_Inr Let_def dp(1,2,3)
        matmul_left_def matmul_right_def both_mult_def density_binop_def
        np_matmul2_square[OF dp(4) R] np_matmul2_square[OF R dp(5)] jp(1,2)
        np_binop2_add[OF l r] np_binop2_add[OF mat_add_is_mat[OF l r] jp(3)]
        DenseLindbladCollection.select_convs fst_conv snd_conv option.case prod.case
        density.case)
  then show ?thesis
    by (simp add: DenseLindbladCollection_init_def bindE_Inr
        lindblad_equation_pieces[OF Hs Hd Ls g R])
qed


lemma mapE_map_Inr:
  "(\<And>x. x \<in> set xs \<Longrightarrow> f (h x) = Inr (k x)) \<Longrightarrow> mapE f (map h xs) = Inr (map k xs)"
  by (induction xs) simp_all

lemma map2_map_map: "map2 f (map a xs) (map b xs) = map (\<lambda>x. f (a x) (b x)) xs"
  by (induction xs) simp_all

lemma DenseLindblad_rhs_batch:
  assumes H: "wf_array3 H" "inner H = (n, n)" and Hd: "is_mat n n Hd"
    and L: "wf_array3 L" "inner L = (n, n)"
    and s: "length s = length (items H)" and g: "length g = length (items L)"
    and Rs: "list_all (is_mat n n) Rs"
  shows "bindE (DenseLindbladCollection_init H (Some Hd) (Some L))
           (\<lambda>c. DenseLindblad_evaluate_rhs c (s, g) (Rhos Rs))
         = Inr (Rhos (map (lindblad_equation n (items H) Hd (items L) s g) Rs))"
proof -
  let ?c = "\<lparr>hamiltonian_operators = H, dissipator_operators = Some L,
      dissipator_operators_conj = Some (conj3 L),
      dissipator_products = Some (matmul3 (conj3 L) L), lb_drift = Some Hd\<rparr>"
  let ?Hm = "hamiltonian_of n (items H) Hd s"
  let ?lm = "left_of n ?Hm (items L) g" and ?rm = "right_of n ?Hm (items L) g"
  have Hs: "list_all (is_mat n n) (items H)" using H by (simp add: wf_array3_def)
  have Ls: "list_all (is_mat n n) (items L)" using L by (simp add: wf_array3_def)
  have Hm: "is_mat n n ?Hm" using Hs Hd by (rule hamiltonian_of_is_mat)
  have ham: "DenseLindblad_evaluate_hamiltonian ?c s = Inr ?Hm"
    by (rule evaluate_hamiltonian_value[OF H Hd s]) simp_all
  note dp = dissipative_pieces[OF Hm L g]
  have R: "is_mat n n R" if "R \<in> set Rs" for R using Rs that by (simp add: list_all_iff)
  have left: "mapE (np_matmul2 ?lm) Rs = Inr (map (matmul ?lm) Rs)"
    by (rule mapE_all_Inr) (simp add: np_matmul2_square[OF dp(4)] R)
  have right: "mapE (\<lambda>R. np_matmul2 R ?rm) Rs = Inr (map (\<lambda>R. matmul R ?rm) Rs)"
    by (rule mapE_all_Inr) (simp add: np_matmul2_square[OF _ dp(5)] R)
  have sw: "mapE (sandwich L (conj3 L)) Rs = Inr (map (sandwiched n (items L)) Rs)"
    by (rule mapE_all_Inr) (simp add: jump_pieces(1)[OF L g] R)
  have both: "mapE (np_tensordot g) (map (sandwiched n (items L)) Rs)
      = Inr (map (jump_of n (items L) g) Rs)"
    by (rule mapE_map_Inr) (simp add: jump_pieces(2)[OF L g] R)
  have l: "list_all (is_mat n n) (map (matmul ?lm) Rs)"
    using Rs dp(4) by (simp add: list_all_iff matmul_square)
  have r: "list_all (is_mat n n) (map (\<lambda>R. matmul R ?rm) Rs)"
    using Rs dp(5) by (simp add: list_all_iff matmul_square)
  have j: "list_all (is_mat n n) (map (jump_of n (items L) g) Rs)"
    using Rs by (simp add: list_all_iff jump_pieces(3)[OF L g])
  have lr: "list_all (is_mat n n) (map2 mat_add (map (matmul ?lm) Rs) (map (\<lambda>R. matmul R ?rm) Rs))"
    unfolding map2_map_map using Rs dp(4,5) by (simp add: list_all_iff matmul_square mat_add_is_mat)
  have sum1: "np_binop3 (+) (map (matmul ?lm) Rs) (map (\<lambda>R. matmul R ?rm) Rs)
      = Inr (map2 mat_add (map (matmul ?lm) Rs) (map (\<lambda>R. matmul R ?rm) Rs))"
    by (rule np_binop3_add[OF l r]) simp
  have sum2: "np_binop3 (+) (map2 mat_add (map (matmul ?lm) Rs) (map (\<lambda>R. matmul R ?rm) Rs))
        (map (jump_of n (items L) g) Rs)
      = Inr (map2 mat_add (map2 mat_add (map (matmul ?lm) Rs) (map (\<lambda>R. matmul R ?rm) Rs))
          (map (jump_of n (items L) g) Rs))"
    by (rule np_binop3_add[OF lr j]) simp
  have fin: "map2 mat_add (map2 mat_add (map (matmul ?lm) Rs) (map (\<lambda>R. matmul R ?rm) Rs))
          (map (jump_of n (items L) g) Rs)
      = map (lindblad_equation n (items H) Hd (items L) s g) Rs"
    unfolding map2_map_map
    by (rule map_cong) (simp_all add: lindblad_equation_pieces[OF Hs Hd Ls g] R)
  have "DenseLindblad_evaluate_rhs ?c (s, g) (Rhos Rs)
      = Inr (Rhos (map (lindblad_equation n (items H) Hd (items L) s g) Rs))"
    by (simp only: DenseLindblad_evaluate_rhs_def ham bindE_Inr Let_def dp(1,2,3)
        matmul_left_def matmul_right_def both_mult_def density_binop_def
        left right sw both sum1 sum2 fin
        DenseLindbladCollection.select_convs fst_conv snd_conv option.case prod.case
        density.case)
  then show ?thesis
    by (simp add: DenseLindbladCollection_init_def bindE_Inr)
qed

lemma DenseLindblad_rhs_unitary:
  assumes H: "wf_array3 H" "inner H = (n, n)" and Hd: "is_mat n n Hd"
    and s: "length s = length (items H)" and R: "is_mat n n R"
  shows "bindE (DenseLindbladCollection_init H (Some Hd) None)
           (\<lambda>c. DenseLindblad_evaluate_rhs c (s, g) (Rho R))
         = Inr (Rho (unitary_equation n (items H) Hd s R))"
proof -
  let ?c = "\<lparr>hamiltonian_operators = H, dissipator_operators = None,
      dissipator_operators_conj = None, dissipator_products = None, lb_drift = Some Hd\<rparr>"
  let ?Hm = "hamiltonian_of n (items H) Hd s"
  let ?B = "scal (- \<i>) ?Hm"
  have Hs: "list_all (is_mat n n) (items H)" using H by (simp add: wf_array3_def)
  have Hm: "is_mat n n ?Hm" using Hs Hd by (rule hamiltonian_of_is_mat)
  have B: "is_mat n n ?B" using Hm by (rule scal_is_mat)
  have ham: "DenseLindblad_evaluate_hamiltonian ?c s = Inr ?Hm"
    by (rule evaluate_hamiltonian_value[OF H Hd s]) simp_all
  have l: "is_mat n n (matmul ?B R)" using B R by (rule matmul_square)
  have r: "is_mat n n (matmul R ?B)" using R B by (rule matmul_square)
  have com: "is_mat n n (commutator ?Hm R)" using Hm R by (rule commutator_is_mat)
  have eq: "mat_sub (matmul ?B R) (matmul R ?B) = scal (- \<i>) (commutator ?Hm R)"
  proof (rule mat_eqI[where r=n and c=n])
    show "is_mat n n (mat_sub (matmul ?B R) (matmul R ?B))" using l r by (rule mat_sub_is_mat)
    show "is_mat n n (scal (- \<i>) (commutator ?Hm R))" using com by (rule scal_is_mat)
  next
    fix i j assume ij: "i < n" "j < n"
    show "mat_sub (matmul ?B R) (matmul R ?B) ! i ! j = scal (- \<i>) (commutator ?Hm R) ! i ! j"
      using mat_sub_entry[OF l r ij] matmul_scal_left_entry[OF Hm R ij, of "- \<i>"]
        matmul_scal_right_entry[OF Hm R ij, of "- \<i>"] scal_entry[OF com ij, of "- \<i>"]
        commutator_entry[OF Hm R ij]
      by (simp add: right_diff_distrib)
  qed
  have "DenseLindblad_evaluate_rhs ?c (s, g) (Rho R)
      = Inr (Rho (mat_sub (matmul ?B R) (matmul R ?B)))"
    by (simp only: DenseLindblad_evaluate_rhs_def ham bindE_Inr Let_def unitary_rhs_def
        np_matmul2_square[OF B R] np_matmul2_square[OF R B] np_binop2_sub[OF l r]
        DenseLindbladCollection.select_convs fst_conv snd_conv option.case prod.case
        density.case)
  then show ?thesis
    by (simp add: DenseLindbladCollection_init_def bindE_Inr unitary_equation_def eq)
qed

section \<open>Properties\<close>

subsection \<open>Generator evaluation of the Lindblad collections\<close>

text \<open>
  Claim C6. On a DenseLindbladCollection and on a SparseLindbladCollection, which inherits
  the method, \<^verbatim>\<open>evaluate_generator\<close> raises ValueError for every collection and every
  argument, so it returns no value; and \<^verbatim>\<open>__call__\<close> without a state, which calls it,
  hands the same error on to the caller.
\<close>

theorem lindblad_evaluate_generator_raises:
  "DenseLindblad_evaluate_generator c s = Inl ValueError
   \<and> SparseLindblad_evaluate_generator c' s' = Inl ValueError
   \<and> DenseLindblad_call c sv None = Inl ValueError"
  by (simp add: DenseLindblad_evaluate_generator_def SparseLindblad_evaluate_generator_def
      DenseLindblad_call_def)

subsection \<open>States of other ranks in the sparse collection\<close>

text \<open>
  Claim C10. When the state \<open>y\<close> has neither one nor two dimensions,
  \<^verbatim>\<open>SparseOperatorCollection.evaluate_rhs\<close> takes neither branch: it returns None, for
  every collection and every signal vector, and raises nothing.
\<close>

theorem sparse_evaluate_rhs_falls_through:
  "ndim y \<noteq> 1 \<Longrightarrow> ndim y \<noteq> 2 \<Longrightarrow> Sparse_evaluate_rhs c s y = Inr None"
  by (cases y) (simp_all add: Sparse_evaluate_rhs_def)

theorem sparse_evaluate_rhs_falls_through_witness:
  "ndim (Arr3 [[[1 :: complex]]]) \<noteq> 1 \<and> ndim (Arr3 [[[1 :: complex]]]) \<noteq> 2
   \<and> Sparse_evaluate_rhs \<lparr>sp_operators = [[[1]]], sp_drift = Some [[0]]\<rparr> [2] (Arr3 [[[1 :: complex]]])
       = Inr None
   \<and> Sparse_evaluate_rhs \<lparr>sp_operators = [[[1]]], sp_drift = Some [[0]]\<rparr> [2] (Arr0 (5 :: complex))
       = Inr None"
  using sparse_evaluate_rhs_falls_through
    [of "Arr3 [[[1 :: complex]]]" "\<lparr>sp_operators = [[[1]]], sp_drift = Some [[0]]\<rparr>" "[2]"]
    sparse_evaluate_rhs_falls_through
    [of "Arr0 (5 :: complex)" "\<lparr>sp_operators = [[[1]]], sp_drift = Some [[0]]\<rparr>" "[2]"]
  by simp

subsection \<open>The number of operators\<close>

text \<open>
  Claim C7, evaluated on the code. A dense and a sparse collection return the number of
  operators they were built from, and a DenseLindbladCollection built with dissipators
  returns the pair of counts. But \<^verbatim>\<open>num_operators\<close> of a DenseLindbladCollection built
  without dissipators reads \<^verbatim>\<open>None.shape\<close> and raises AttributeError, and on every
  SparseLindbladCollection the inherited method reads entry \<open>-3\<close> of the shape of a 1-D
  array and raises IndexError.
\<close>

theorem num_operators_on_code:
  "bindE (DenseOperatorCollection_init ops d) Dense_num_operators = Inr (length (items ops))
   \<and> bindE (SparseOperatorCollection_init ops (Some D) decimals) Sparse_num_operators
       = Inr (length (items ops))
   \<and> bindE (DenseLindbladCollection_init H Hd (Some L)) DenseLindblad_num_operators
       = Inr (length (items H), length (items L))
   \<and> bindE (DenseLindbladCollection_init H Hd None) DenseLindblad_num_operators = Inl AttributeError
   \<and> SparseLindblad_num_operators c = Inl IndexError"
  by (simp add: DenseOperatorCollection_init_def Dense_num_operators_def to_array_def
      SparseOperatorCollection_init_def Sparse_num_operators_def
      DenseLindbladCollection_init_def DenseLindblad_num_operators_def
      SparseLindblad_num_operators_def tuple_index_def shape3_def bindE_def)

subsection \<open>Construction of the vectorized collection\<close>

text \<open>
  Claim C5, evaluated on the code. Whatever \<^verbatim>\<open>vec_commutator\<close> and \<^verbatim>\<open>vec_dissipator\<close>
  compute and whatever the arguments are, the constructor of
  DenseVectorizedLindbladCollection returns no collection; when \<^verbatim>\<open>vec_commutator\<close>
  succeeds and there are no dissipators, the error is the NameError of \<^verbatim>\<open>vec_drift\<close>.
  No operator set and no drift are stored.
\<close>

theorem vectorized_init_never_constructs:
  "DenseVectorizedLindbladCollection_init vec_commutator vec_dissipator H d L \<noteq> Inr c
   \<and> DenseVectorizedLindbladCollection_init (\<lambda>A. Inr (V A)) vec_dissipator H d None = Inl NameError"
  by (auto simp add: DenseVectorizedLindbladCollection_init_def bindE_def Let_def
      split: sum.splits option.splits)

subsection \<open>Packing and unpacking density matrices\<close>

text \<open>
  Claim C9, as amended. For every batch of \<open>k \<ge> 1\<close> density matrices of dimension
  \<open>n \<times> n\<close>, \<^verbatim>\<open>unpackage_density_matrices(package_density_matrices(y))\<close> returns the
  batch unchanged.
\<close>

theorem package_unpackage_roundtrip:
  assumes "ys \<noteq> []" and "list_all (is_mat n n) ys"
  shows "bindE (package_density_matrices (Rhos ys)) unpackage_density_matrices = Inr (Rhos ys)"
proof -
  obtain y ys' where ys: "ys = y # ys'" using assms(1) by (cases ys) auto
  have y: "is_mat n n y" and rest: "\<And>M. M \<in> set ys' \<Longrightarrow> is_mat n n M"
    using assms(2) ys by (simp_all add: list_all_iff)
  have len: "length y = n" using y by (simp add: is_mat_length)
  have pk: "package_density_matrices (Rhos ys) = Inr (Packed2 (map (\<lambda>M. [M]) ys))"
    using assms ys len by (simp add: package_density_matrices_def)
  have "mapE (\<lambda>row. bindE (first_entry row) (store_into n)) (map (\<lambda>M. [M]) ys')
      = Inr (map (\<lambda>row. hd row) (map (\<lambda>M. [M]) ys'))"
    by (rule mapE_all_Inr) (auto simp: first_entry_def bindE_Inr store_into_id rest)
  then have "mapE (\<lambda>row. bindE (first_entry row) (store_into n)) (map (\<lambda>M. [M]) ys') = Inr ys'"
    by (simp add: comp_def)
  then show ?thesis
    unfolding pk bindE_Inr
    using y len
    by (simp add: ys bindE_Inr unpackage_density_matrices_def first_entry_def square_is_mat)
qed

theorem package_unpackage_roundtrip_witness:
  "[[[1, 2], [3, 4]], [[5, 6], [7, 8 :: complex]]] \<noteq> []
   \<and> list_all (is_mat 2 2) [[[1, 2], [3, 4]], [[5, 6], [7, 8 :: complex]]]
   \<and> bindE (package_density_matrices (Rhos [[[1, 2], [3, 4]], [[5, 6], [7, 8 :: complex]]]))
        unpackage_density_matrices
      = Inr (Rhos [[[1, 2], [3, 4]], [[5, 6], [7, 8 :: complex]]])"
  using package_unpackage_roundtrip [of "[[[1, 2], [3, 4]], [[5, 6], [7, 8 :: complex]]]" 2]
  by (simp add: is_mat_def)

text \<open>
  The claim as stated, for every \<open>k\<close>, fails at \<open>k = 0\<close>: on a batch of no matrices
  \<^verbatim>\<open>np.vectorize\<close> raises ValueError in \<^verbatim>\<open>package_density_matrices\<close>.
\<close>

theorem package_empty_batch_raises:
  "bindE (package_density_matrices (Rhos ([] :: complex mat list))) unpackage_density_matrices
   = Inl ValueError"
  by (simp add: package_density_matrices_def bindE_Inl)

subsection \<open>The right-hand side of the dense and the sparse collection\<close>

text \<open>
  Claim C2, evaluated on the code. For a 1-D or 2-D state \<open>y\<close>,
  \<^verbatim>\<open>DenseOperatorCollection.evaluate_rhs(s, y)\<close> is \<^verbatim>\<open>evaluate_generator(s) @ y\<close>, errors
  included. For a SparseOperatorCollection with at least one operator, all operators and
  the drift of shape \<open>(n,n)\<close> and one signal value for each operator,
  \<^verbatim>\<open>evaluate_generator(s)\<close> returns a matrix \<open>G\<close>, and on a 1-D state \<open>v\<close> of length
  \<open>n\<close> the sum of the weighted operator-vector products that \<^verbatim>\<open>evaluate_rhs(s, v)\<close>
  returns is \<open>G @ v\<close>. But on a 2-D state \<^verbatim>\<open>evaluate_rhs\<close> returns no value when
  \<open>n > 1\<close>: it raises NotImplementedError before the generator is multiplied with the
  state.
\<close>

theorem evaluate_rhs_on_code:
  fixes c :: "'a::semiring_0 SparseOperatorCollection" and dc :: "'a DenseOperatorCollection"
  assumes ne: "sp_operators c \<noteq> []" and all: "list_all (is_mat n n) (sp_operators c)"
    and d: "sp_drift c = Some D" "is_mat n n D" and len: "length s = length (sp_operators c)"
    and v: "length v = n"
  shows "(ndim y = 1 \<or> ndim y = 2 \<longrightarrow>
            Dense_evaluate_rhs dc s' y = bindE (Dense_evaluate_generator dc s') (\<lambda>G. np_matmul G y))
    \<and> (\<exists>G. Sparse_evaluate_generator c s = Inr (Some G)
          \<and> np_matmul G (Arr1 v) = Inr (Arr1 (matvec G v))
          \<and> Sparse_evaluate_rhs c s (Arr1 v) = Inr (Some (Arr1 (matvec G v))))
    \<and> (1 < n \<longrightarrow> Sparse_evaluate_rhs c s (Arr2 Y) = Inl NotImplementedError)"
proof (intro conjI impI)
  assume "ndim y = 1 \<or> ndim y = 2"
  then show "Dense_evaluate_rhs dc s' y = bindE (Dense_evaluate_generator dc s') (\<lambda>G. np_matmul G y)"
    by (cases y) (auto simp: Dense_evaluate_rhs_def bindE_def split: sum.splits)
next
  from Sparse_generator_value[OF ne all d len] obtain G where
    G: "obj_tensordot s (sp_operators c) = Inr (Some G)" "is_mat n n G"
    and gen: "Sparse_evaluate_generator c s = Inr (Some (mat_add G D))" by blast
  have GD: "is_mat n n (mat_add G D)" using G(2) d(2) by (rule mat_add_is_mat)
  have "Sparse_evaluate_rhs c s (Arr1 v) = Inr (Some (Arr1 (matvec (mat_add G D) v)))"
    using Sparse_rhs_vector_value[OF ne all d len v G(1)] by (simp add: Sparse_evaluate_rhs_def)
  moreover have "np_matmul (mat_add G D) (Arr1 v) = Inr (Arr1 (matvec (mat_add G D) v))"
    using v GD by (simp add: ncols_square)
  ultimately show "\<exists>G. Sparse_evaluate_generator c s = Inr (Some G)
          \<and> np_matmul G (Arr1 v) = Inr (Arr1 (matvec G v))
          \<and> Sparse_evaluate_rhs c s (Arr1 v) = Inr (Some (Arr1 (matvec G v)))"
    using gen by blast
next
  assume n: "1 < n"
  from Sparse_generator_value[OF ne all d len] obtain G where
    G: "obj_tensordot s (sp_operators c) = Inr (Some G)" "is_mat n n G" by blast
  show "Sparse_evaluate_rhs c s (Arr2 Y) = Inl NotImplementedError"
    using Sparse_rhs_matrix_raises[OF G n d(1)] by (simp add: Sparse_evaluate_rhs_def)
qed

theorem evaluate_rhs_on_code_witness:
  "[[[0, 1], [1, 0]], [[1, 0], [0, - 1 :: complex]]] \<noteq> []
   \<and> list_all (is_mat 2 2) [[[0, 1], [1, 0]], [[1, 0], [0, - 1 :: complex]]]
   \<and> is_mat 2 2 [[1, 2], [3, 4 :: complex]]
   \<and> length [1 / 2, 2 :: complex] = length [[[0, 1], [1, 0]], [[1, 0], [0, - 1 :: complex]]]
   \<and> length [1, 2 :: complex] = 2 \<and> (1 :: nat) < 2
   \<and> Sparse_evaluate_generator
        \<lparr>sp_operators = [[[0, 1], [1, 0]], [[1, 0], [0, - 1]]], sp_drift = Some [[1, 2], [3, 4]]\<rparr>
        [1 / 2, 2 :: complex]
      = Inr (Some [[3, 5 / 2], [7 / 2, 2]])
   \<and> Sparse_evaluate_rhs
        \<lparr>sp_operators = [[[0, 1], [1, 0]], [[1, 0], [0, - 1]]], sp_drift = Some [[1, 2], [3, 4]]\<rparr>
        [1 / 2, 2 :: complex] (Arr1 [1, 2])
      = Inr (Some (Arr1 [8, 15 / 2]))
   \<and> Sparse_evaluate_rhs
        \<lparr>sp_operators = [[[0, 1], [1, 0]], [[1, 0], [0, - 1]]], sp_drift = Some [[1, 2], [3, 4]]\<rparr>
        [1 / 2, 2 :: complex] (Arr2 [[1, 0], [2, 1]])
      = Inl NotImplementedError
   \<and> Dense_evaluate_generator
        \<lparr>operators = stack 2 [[[0, 1], [1, 0]], [[1, 0], [0, - 1]]], drift = Some [[1, 2], [3, 4]]\<rparr>
        [1 / 2, 2 :: complex]
      = Inr [[3, 5 / 2], [7 / 2, 2]]
   \<and> Dense_evaluate_rhs
        \<lparr>operators = stack 2 [[[0, 1], [1, 0]], [[1, 0], [0, - 1]]], drift = Some [[1, 2], [3, 4]]\<rparr>
        [1 / 2, 2 :: complex] (Arr1 [1, 2])
      = Inr (Arr1 [8, 15 / 2])
   \<and> Dense_evaluate_rhs
        \<lparr>operators = stack 2 [[[0, 1], [1, 0]], [[1, 0], [0, - 1]]], drift = Some [[1, 2], [3, 4]]\<rparr>
        [1 / 2, 2 :: complex] (Arr2 [[1, 0], [2, 1]])
      = Inr (Arr2 [[8, 5 / 2], [15 / 2, 2]])"
proof -
  let ?c = "\<lparr>sp_operators = [[[0, 1], [1, 0]], [[1, 0], [0, - 1 :: complex]]],
      sp_drift = Some [[1, 2], [3, 4]]\<rparr>"
  let ?dc = "\<lparr>operators = stack 2 [[[0, 1], [1, 0]], [[1, 0], [0, - 1 :: complex]]],
      drift = Some [[1, 2], [3, 4]]\<rparr>"
  have e: "Sparse_evaluate_generator ?c [1 / 2, 2] = Inr (Some [[3, 5 / 2], [7 / 2, 2]])"
    "Dense_evaluate_generator ?dc [1 / 2, 2] = Inr [[3, 5 / 2], [7 / 2, 2]]"
    "matvec [[3, 5 / 2], [7 / 2, 2]] [1, 2 :: complex] = [8, 15 / 2]"
    "matmul [[3, 5 / 2], [7 / 2, 2]] [[1, 0], [2, 1 :: complex]] = [[8, 5 / 2], [15 / 2, 2]]"
    by code_simp+
  show ?thesis
    using evaluate_rhs_on_code
      [of ?c 2 "[[1, 2], [3, 4]]" "[1 / 2, 2]" "[1, 2]" "Arr1 [1, 2]" ?dc "[1 / 2, 2]"
        "[[1, 0], [2, 1]]"]
      evaluate_rhs_on_code
      [of ?c 2 "[[1, 2], [3, 4]]" "[1 / 2, 2]" "[1, 2]" "Arr2 [[1, 0], [2, 1]]" ?dc "[1 / 2, 2]"
        "[[1, 0], [2, 1]]"]
    by (simp add: e is_mat_def bindE_def ncols_def)
qed

subsection \<open>The generator of the dense and the sparse collection\<close>

text \<open>
  Claim C1, as amended. Let the operators \<open>G[k]\<close> and the drift \<open>D\<close> have shape
  \<open>(n,n)\<close> and let \<open>s\<close> hold one signal value for each operator. A
  DenseOperatorCollection built from them returns from \<^verbatim>\<open>evaluate_generator(s)\<close> exactly
  the matrix with entries \<open>(\<Sum>k. s[k] * G[k][i][j]) + D[i][j]\<close>, and built with drift
  None the matrix with entries \<open>\<Sum>k. s[k] * G[k][i][j]\<close>. A SparseOperatorCollection
  built from at least one operator returns the same sum over the operators and the drift
  rounded to \<open>decimals\<close> places; each of its entries differs from the exact one by at
  most \<open>(1 + (\<Sum>k. |s[k]|)) * 10 powi (- decimals)\<close>.
\<close>

theorem evaluate_generator_weighted_sum:
  fixes ops :: "complex array3"
  assumes wf: "wf_array3 ops" and sh: "inner ops = (n, n)" and len: "length s = length (items ops)"
    and D: "is_mat n n D"
  shows "(\<exists>G. bindE (DenseOperatorCollection_init ops (Some D)) (\<lambda>c. Dense_evaluate_generator c s) = Inr G
          \<and> is_mat n n G
          \<and> (\<forall>i<n. \<forall>j<n. G ! i ! j = (\<Sum>k<length s. s ! k * items ops ! k ! i ! j) + D ! i ! j))
    \<and> (\<exists>G. bindE (DenseOperatorCollection_init ops None) (\<lambda>c. Dense_evaluate_generator c s) = Inr G
          \<and> is_mat n n G
          \<and> (\<forall>i<n. \<forall>j<n. G ! i ! j = (\<Sum>k<length s. s ! k * items ops ! k ! i ! j)))
    \<and> (items ops \<noteq> [] \<longrightarrow>
        (\<exists>G. bindE (SparseOperatorCollection_init ops (Some D) decimals)
               (\<lambda>c. Sparse_evaluate_generator c s) = Inr (Some G)
          \<and> is_mat n n G
          \<and> (\<forall>i<n. \<forall>j<n.
                G ! i ! j = (\<Sum>k<length s. s ! k * np_round decimals (items ops ! k ! i ! j))
                            + np_round decimals (D ! i ! j)
                \<and> cmod (G ! i ! j - ((\<Sum>k<length s. s ! k * items ops ! k ! i ! j) + D ! i ! j))
                    \<le> (1 + (\<Sum>k<length s. cmod (s ! k))) * 10 powi (- decimals))))"
proof (intro conjI impI)
  from np_tensordot_entries[OF wf sh len] obtain T where
    T: "np_tensordot s ops = Inr T" "is_mat n n T"
    "\<forall>i<n. \<forall>j<n. T ! i ! j = (\<Sum>k<length s. s ! k * items ops ! k ! i ! j)" by blast
  show "\<exists>G. bindE (DenseOperatorCollection_init ops None) (\<lambda>c. Dense_evaluate_generator c s) = Inr G
          \<and> is_mat n n G
          \<and> (\<forall>i<n. \<forall>j<n. G ! i ! j = (\<Sum>k<length s. s ! k * items ops ! k ! i ! j))"
    using T by (simp add: DenseOperatorCollection_init_def bindE_Inr Dense_evaluate_generator_def
        to_array_def)
  have "bindE (DenseOperatorCollection_init ops (Some D)) (\<lambda>c. Dense_evaluate_generator c s)
      = Inr (mat_add T D)"
    using T D by (simp add: DenseOperatorCollection_init_def bindE_Inr Dense_evaluate_generator_def
        to_array_def np_binop2_same mat_add_def)
  moreover have "is_mat n n (mat_add T D)" using T(2) D by (rule mat_add_is_mat)
  moreover have "\<forall>i<n. \<forall>j<n. mat_add T D ! i ! j
      = (\<Sum>k<length s. s ! k * items ops ! k ! i ! j) + D ! i ! j"
    using T D by (simp add: mat_add_entry)
  ultimately show "\<exists>G. bindE (DenseOperatorCollection_init ops (Some D))
      (\<lambda>c. Dense_evaluate_generator c s) = Inr G \<and> is_mat n n G
      \<and> (\<forall>i<n. \<forall>j<n. G ! i ! j = (\<Sum>k<length s. s ! k * items ops ! k ! i ! j) + D ! i ! j)"
    by blast
next
  assume ne: "items ops \<noteq> []"
  let ?c = "\<lparr>sp_operators = map (round_mat decimals) (items ops),
             sp_drift = Some (round_mat decimals D)\<rparr>"
  let ?e = "10 powi (- decimals) :: real"
  have all: "list_all (is_mat n n) (items ops)" using wf sh by (simp add: wf_array3_def)
  have rall: "list_all (is_mat n n) (sp_operators ?c)"
    using all by (simp add: list_all_iff round_mat_is_mat)
  have rD: "is_mat n n (round_mat decimals D)" using D by (rule round_mat_is_mat)
  from Sparse_generator_value[of ?c n "round_mat decimals D" s] ne rall rD len
  obtain G where G: "is_mat n n G"
    "\<forall>i<n. \<forall>j<n. G ! i ! j = (\<Sum>k<length s. s ! k * sp_operators ?c ! k ! i ! j)"
    "Sparse_evaluate_generator ?c s = Inr (Some (mat_add G (round_mat decimals D)))"
    by auto
  let ?R = "mat_add G (round_mat decimals D)"
  have R: "is_mat n n ?R" using G(1) rD by (rule mat_add_is_mat)
  have ent: "?R ! i ! j = (\<Sum>k<length s. s ! k * np_round decimals (items ops ! k ! i ! j))
      + np_round decimals (D ! i ! j)" if ij: "i < n" "j < n" for i j
  proof -
    have "(\<Sum>k<length s. s ! k * sp_operators ?c ! k ! i ! j)
        = (\<Sum>k<length s. s ! k * np_round decimals (items ops ! k ! i ! j))"
    proof (rule sum.cong)
      fix k assume "k \<in> {..<length s}"
      then have k: "k < length (items ops)" using len by simp
      then have "is_mat n n (items ops ! k)" using all by (simp add: list_all_length)
      then show "s ! k * sp_operators ?c ! k ! i ! j = s ! k * np_round decimals (items ops ! k ! i ! j)"
        using k ij by (simp add: round_mat_entry)
    qed simp
    then show ?thesis
      using G(1,2) rD D ij by (simp add: mat_add_entry round_mat_entry)
  qed
  have err: "cmod (?R ! i ! j - ((\<Sum>k<length s. s ! k * items ops ! k ! i ! j) + D ! i ! j))
      \<le> (1 + (\<Sum>k<length s. cmod (s ! k))) * ?e" if ij: "i < n" "j < n" for i j
    unfolding ent[OF ij] by (rule weighted_error) (rule np_round_error)+
  have "bindE (SparseOperatorCollection_init ops (Some D) decimals)
      (\<lambda>c. Sparse_evaluate_generator c s) = Inr (Some ?R)"
    using G(3) by (simp add: SparseOperatorCollection_init_def bindE_Inr)
  with R ent err show "\<exists>G. bindE (SparseOperatorCollection_init ops (Some D) decimals)
               (\<lambda>c. Sparse_evaluate_generator c s) = Inr (Some G)
          \<and> is_mat n n G
          \<and> (\<forall>i<n. \<forall>j<n.
                G ! i ! j = (\<Sum>k<length s. s ! k * np_round decimals (items ops ! k ! i ! j))
                            + np_round decimals (D ! i ! j)
                \<and> cmod (G ! i ! j - ((\<Sum>k<length s. s ! k * items ops ! k ! i ! j) + D ! i ! j))
                    \<le> (1 + (\<Sum>k<length s. cmod (s ! k))) * 10 powi (- decimals))"
    by blast
qed

theorem evaluate_generator_weighted_sum_witness:
  "wf_array3 (stack 2 [[[0, 1], [1, 0 :: complex]]])
   \<and> inner (stack 2 [[[0, 1], [1, 0 :: complex]]]) = (2, 2)
   \<and> length [1 / 2 :: complex] = length (items (stack 2 [[[0, 1], [1, 0 :: complex]]]))
   \<and> is_mat 2 2 [[1, 0], [0, - 1 :: complex]]
   \<and> bindE (DenseOperatorCollection_init (stack 2 [[[0, 1], [1, 0]]]) (Some [[1, 0], [0, - 1]]))
        (\<lambda>c. Dense_evaluate_generator c [1 / 2 :: complex])
      = Inr [[1, 1 / 2], [1 / 2, - 1]]
   \<and> bindE (DenseOperatorCollection_init (stack 2 [[[0, 1], [1, 0]]]) None)
        (\<lambda>c. Dense_evaluate_generator c [1 / 2 :: complex])
      = Inr [[0, 1 / 2], [1 / 2, 0]]
   \<and> bindE (SparseOperatorCollection_init (stack 2 [[[0, 1], [1, 0]]]) (Some [[1, 0], [0, - 1]]) 10)
        (\<lambda>c. Sparse_evaluate_generator c [1 / 2])
      = Inr (Some [[1, 1 / 2], [1 / 2, - 1]])"
proof -
  have r: "np_round 10 0 = 0" "np_round 10 1 = 1" "np_round 10 (- 1) = - 1"
    by (simp_all add: np_round_def round_dec_def rint_def complex_eq_iff Let_def)
  show ?thesis
    using evaluate_generator_weighted_sum
      [of "stack 2 [[[0, 1], [1, 0 :: complex]]]" 2 "[1 / 2]" "[[1, 0], [0, - 1]]" 10]
    by (simp add: r wf_array3_def is_mat_def stack_def DenseOperatorCollection_init_def
        SparseOperatorCollection_init_def to_array_def bindE_def round_mat_def
        Sparse_evaluate_generator_def obj_tensordot_def csr_add_def ncols_def
        mat_add_def scal_def Dense_evaluate_generator_def np_tensordot_def zeros_def
        np_binop2_def bc_ok_def bc_zip_def bc_dim_def stretch_def eval_nat_numeral)
qed

text \<open>
  The claim as stated, with the tolerance \<open>10 powi (- decimals)\<close> whatever the signal:
  with the default ten decimals the operator entry \<open>4 / 10 ^ 11\<close> is stored as 0, and at
  the signal value 1000 the sparse generator is 0 where the exact one is \<open>4 / 10 ^ 8\<close>.
\<close>

theorem sparse_generator_beyond_tolerance:
  "bindE (SparseOperatorCollection_init (stack 1 [[[4 / 10 ^ 11]]]) (Some [[0]]) 10)
     (\<lambda>c. Sparse_evaluate_generator c [1000]) = Inr (Some [[0]])
   \<and> 10 powi (- 10) < cmod (0 - (1000 * (4 / 10 ^ 11) + 0))"
proof -
  have r: "np_round 10 0 = 0" "np_round 10 (1 / 25000000000) = 0"
    by (simp_all add: np_round_def round_dec_def rint_def complex_eq_iff Let_def)
  have "bindE (SparseOperatorCollection_init (stack 1 [[[4 / 10 ^ 11]]]) (Some [[0]]) 10)
     (\<lambda>c. Sparse_evaluate_generator c [1000]) = Inr (Some [[0]])"
    by (simp add: r stack_def SparseOperatorCollection_init_def bindE_def round_mat_def
        Sparse_evaluate_generator_def obj_tensordot_def csr_add_def ncols_def
        mat_add_def scal_def)
  moreover have "10 powi (- 10) < cmod (0 - (1000 * (4 / 10 ^ 11) + 0))"
    by (simp add: norm_divide norm_power power_int_minus)
  ultimately show ?thesis by blast
qed

subsection \<open>Collections built without a drift\<close>

text \<open>
  Claim C8, as amended. Constructing a DenseOperatorCollection with the drift omitted
  succeeds, and \<^verbatim>\<open>evaluate_generator\<close> and \<^verbatim>\<open>evaluate_rhs\<close> then add no drift term:
  they return the contraction of the signal values with the operators, and its product
  with the state. The Lindblad collections take the drift as a required argument: a
  DenseLindbladCollection given None is constructed and stores None, and
  \<^verbatim>\<open>evaluate_rhs\<close>, whose \<^verbatim>\<open>evaluate_hamiltonian\<close> adds \<^verbatim>\<open>self.drift\<close> in every
  case, then raises TypeError.
\<close>

theorem drift_omitted:
  "bindE (DenseOperatorCollection_init ops None) (\<lambda>c. Dense_evaluate_generator c s)
     = np_tensordot s ops
   \<and> bindE (DenseOperatorCollection_init ops None) (\<lambda>c. Dense_evaluate_rhs c s y)
     = bindE (np_tensordot s ops) (\<lambda>G. np_dot G y)
   \<and> (\<exists>c. DenseLindbladCollection_init H None L = Inr c \<and> lb_drift c = None)
   \<and> (length sh = length (items H) \<longrightarrow>
        bindE (DenseLindbladCollection_init H None L) (\<lambda>c. DenseLindblad_evaluate_rhs c (sh, g) \<rho>)
        = Inl TypeError)"
  by (simp add: DenseOperatorCollection_init_def to_array_def bindE_def Dense_evaluate_generator_def
      Dense_evaluate_rhs_def DenseLindbladCollection_init_def DenseLindblad_evaluate_rhs_def
      DenseLindblad_evaluate_hamiltonian_def np_tensordot_def)

theorem drift_omitted_witness:
  "bindE (DenseOperatorCollection_init (stack 2 [[[0, 1], [1, 0]]]) None)
     (\<lambda>c. Dense_evaluate_generator c [1 / 2 :: complex])
     = Inr [[0, 1 / 2], [1 / 2, 0]]
   \<and> bindE (DenseOperatorCollection_init (stack 2 [[[0, 1], [1, 0]]]) None)
     (\<lambda>c. Dense_evaluate_rhs c [1 / 2 :: complex] (Arr1 [1, 0]))
     = Inr (Arr1 [0, 1 / 2])
   \<and> length [1 :: complex] = length (items (stack 2 [[[0, 1], [1, 0 :: complex]]]))
   \<and> bindE (DenseLindbladCollection_init (stack 2 [[[0, 1], [1, 0]]]) None None)
        (\<lambda>c. DenseLindblad_evaluate_rhs c ([1], []) (Rho [[1, 0], [0, 0]]))
     = Inl TypeError"
  using drift_omitted
    [of "stack 2 [[[0, 1], [1, 0 :: complex]]]" "[1 / 2]" "Arr1 [1, 0]"
      "stack 2 [[[0, 1], [1, 0]]]" None "[1]" "[]" "Rho [[1, 0], [0, 0]]"]
  by (simp add: stack_def np_tensordot_def bindE_def mat_add_def scal_def zeros_def
      ncols_def matvec_def dotp_def eval_nat_numeral)

text \<open>
  The claim as stated fails on a sparse collection, whose constructor rounds the drift
  before anything else, and on a dense Lindblad collection, which is constructed but
  cannot be evaluated.
\<close>

theorem drift_none_raises:
  "SparseOperatorCollection_init (stack 2 [[[0, 1], [1, 0]]]) None 10 = Inl TypeError
   \<and> SparseLindbladCollection_init (stack 2 [[[0, 1], [1, 0]]]) None None 10 = Inl TypeError
   \<and> bindE (DenseLindbladCollection_init (stack 2 [[[0, 1], [1, 0]]]) None None)
        (\<lambda>c. DenseLindblad_evaluate_rhs c ([1], []) (Rho [[1, 0], [0, 0]]))
     = Inl TypeError"
  by (simp add: SparseOperatorCollection_init_def SparseLindbladCollection_init_def
      DenseLindbladCollection_init_def DenseLindblad_evaluate_rhs_def bindE_def
      DenseLindblad_evaluate_hamiltonian_def np_tensordot_def stack_def)

subsection \<open>The vectorized collection against the dense Lindblad collection\<close>

text \<open>
  Claim C4, evaluated on the code. No DenseVectorizedLindbladCollection can be built, for
  its constructor raises in every case (the defect of claim C5), so there is no vectorized
  result to compare. And on any collection state, \<^verbatim>\<open>evaluate_rhs\<close> of the vectorized
  class drops the dissipator signal values when all of them are zero, and then raises
  ValueError whenever the collection holds more operators than Hamiltonian signal values,
  as one built from Hamiltonian and dissipator operators would.
\<close>

theorem vectorized_rhs_on_code:
  "DenseVectorizedLindbladCollection_init vec_commutator vec_dissipator H d L \<noteq> Inr c
   \<and> (length sh \<noteq> length (items (operators c')) \<longrightarrow>
        Vectorized_evaluate_rhs c' (SigList sh (Some (replicate m 0))) y = Inl ValueError)"
  by (auto simp add: DenseVectorizedLindbladCollection_init_def bindE_def Let_def
      Vectorized_evaluate_rhs_def Vectorized_signal_values_def Dense_evaluate_rhs_def
      Dense_evaluate_generator_def np_tensordot_def list_ex_iff
      split: sum.splits option.splits)

theorem vectorized_rhs_on_code_witness:
  "length [1 :: complex] \<noteq> length (items (operators
      \<lparr>operators = stack 4 [zeros 4 4, zeros 4 4], drift = None\<rparr>))
   \<and> Vectorized_evaluate_rhs \<lparr>operators = stack 4 [zeros 4 4, zeros 4 4], drift = None\<rparr>
        (SigList [1 :: complex] (Some (replicate 1 0))) (Arr1 [1, 0, 0, 0]) = Inl ValueError
   \<and> bindE (DenseLindbladCollection_init (stack 2 [[[0, 1], [1, 0]]]) (Some [[0, 0], [0, 0]])
              (Some (stack 2 [[[0, 1], [0, 0]]])))
        (\<lambda>c. DenseLindblad_evaluate_rhs c ([1], [0]) (Rho [[1, 0], [0, 0]]))
      = Inr (Rho [[0, \<i>], [- \<i>, 0]])"
proof -
  have "bindE (DenseLindbladCollection_init (stack 2 [[[0, 1], [1, 0]]]) (Some [[0, 0], [0, 0]])
              (Some (stack 2 [[[0, 1], [0, 0]]])))
        (\<lambda>c. DenseLindblad_evaluate_rhs c ([1], [0]) (Rho [[1, 0], [0, 0]]))
      = Inr (Rho [[0, \<i>], [- \<i>, 0]])"
    by code_simp
  then show ?thesis
    using vectorized_rhs_on_code
      [of _ _ _ _ _ _ "[1 :: complex]" "\<lparr>operators = stack 4 [zeros 4 4, zeros 4 4], drift = None\<rparr>"
        1 "Arr1 [1, 0, 0, 0]"]
    by (simp add: stack_def)
qed

subsection \<open>The right-hand side of the dense Lindblad collection\<close>

text \<open>
  Claim C3, as amended. Let a DenseLindbladCollection be built from Hamiltonian operators
  \<open>H[j]\<close>, a drift \<open>H\<^sub>d\<close> and dissipator operators \<open>L[j]\<close>, all of shape \<open>(n,n)\<close>,
  and let \<open>s\<close> and \<open>\<gamma>\<close> hold one signal value for each Hamiltonian and each dissipator
  operator. Then \<^verbatim>\<open>evaluate_rhs([s, \<gamma>], \<rho>)\<close> returns
  \<open>- \<i> [H, \<rho>] + (\<Sum>j. \<gamma>[j] * (L[j] \<rho> L[j]\<^sup>\<dagger> - 1/2 {L[j]\<^sup>\<dagger> L[j], \<rho>}))\<close> with
  \<open>H = (\<Sum>j. s[j] * H[j]) + H\<^sub>d\<close> for one \<open>n \<times> n\<close> matrix \<open>\<rho>\<close>, and the batch of these
  values for a batch of such matrices. Built without dissipator operators, it returns
  \<open>- \<i> [H, \<rho>]\<close> for one matrix \<open>\<rho>\<close>. In the scenario \<open>L = [[0,1],[0,0]]\<close>,
  \<open>\<gamma> = [1]\<close>, \<open>s = [0]\<close>, drift 0, \<open>\<rho> = [[1,0],[0,0]]\<close> the result is the zero matrix.
\<close>

theorem lindblad_rhs_equation:
  assumes H: "wf_array3 H" "inner H = (n, n)" and Hd: "is_mat n n Hd"
    and L: "wf_array3 L" "inner L = (n, n)"
    and s: "length s = length (items H)" and g: "length g = length (items L)"
    and R: "is_mat n n R" and Rs: "list_all (is_mat n n) Rs"
  shows "bindE (DenseLindbladCollection_init H (Some Hd) (Some L))
           (\<lambda>c. DenseLindblad_evaluate_rhs c (s, g) (Rho R))
         = Inr (Rho (lindblad_equation n (items H) Hd (items L) s g R))
    \<and> bindE (DenseLindbladCollection_init H (Some Hd) (Some L))
           (\<lambda>c. DenseLindblad_evaluate_rhs c (s, g) (Rhos Rs))
         = Inr (Rhos (map (lindblad_equation n (items H) Hd (items L) s g) Rs))
    \<and> bindE (DenseLindbladCollection_init H (Some Hd) None)
           (\<lambda>c. DenseLindblad_evaluate_rhs c (s, g') (Rho R))
         = Inr (Rho (unitary_equation n (items H) Hd s R))
    \<and> bindE (DenseLindbladCollection_init (stack 2 [[[0, 1], [1, 0]]]) (Some [[0, 0], [0, 0]])
              (Some (stack 2 [[[0, 1], [0, 0]]])))
           (\<lambda>c. DenseLindblad_evaluate_rhs c ([0], [1]) (Rho [[1, 0], [0, 0]]))
         = Inr (Rho [[0, 0], [0, 0]])"
proof (intro conjI)
  show "bindE (DenseLindbladCollection_init H (Some Hd) (Some L))
           (\<lambda>c. DenseLindblad_evaluate_rhs c (s, g) (Rho R))
         = Inr (Rho (lindblad_equation n (items H) Hd (items L) s g R))"
    by (rule DenseLindblad_rhs_single[OF H Hd L s g R])
  show "bindE (DenseLindbladCollection_init H (Some Hd) (Some L))
           (\<lambda>c. DenseLindblad_evaluate_rhs c (s, g) (Rhos Rs))
         = Inr (Rhos (map (lindblad_equation n (items H) Hd (items L) s g) Rs))"
    by (rule DenseLindblad_rhs_batch[OF H Hd L s g Rs])
  show "bindE (DenseLindbladCollection_init H (Some Hd) None)
           (\<lambda>c. DenseLindblad_evaluate_rhs c (s, g') (Rho R))
         = Inr (Rho (unitary_equation n (items H) Hd s R))"
    by (rule DenseLindblad_rhs_unitary[OF H Hd s R])
  show "bindE (DenseLindbladCollection_init (stack 2 [[[0, 1], [1, 0]]]) (Some [[0, 0], [0, 0]])
              (Some (stack 2 [[[0, 1], [0, 0]]])))
           (\<lambda>c. DenseLindblad_evaluate_rhs c ([0], [1]) (Rho [[1, 0], [0, 0]]))
         = Inr (Rho [[0, 0], [0, 0]])"
    by code_simp
qed

theorem lindblad_rhs_equation_witness:
  "wf_array3 (stack 2 [[[0, 1], [1, 0 :: complex]]])
   \<and> inner (stack 2 [[[0, 1], [1, 0 :: complex]]]) = (2, 2)
   \<and> is_mat 2 2 [[1, 0], [0, - 1 :: complex]]
   \<and> wf_array3 (stack 2 [[[0, 1], [0, 0 :: complex]]])
   \<and> inner (stack 2 [[[0, 1], [0, 0 :: complex]]]) = (2, 2)
   \<and> length [1 :: complex] = length (items (stack 2 [[[0, 1], [1, 0 :: complex]]]))
   \<and> length [2 :: complex] = length (items (stack 2 [[[0, 1], [0, 0 :: complex]]]))
   \<and> is_mat 2 2 [[0, 0], [0, 1 :: complex]]
   \<and> list_all (is_mat 2 2) [[[0, 0], [0, 1]], [[1, 0], [0, 0 :: complex]]]
   \<and> bindE (DenseLindbladCollection_init (stack 2 [[[0, 1], [1, 0]]]) (Some [[1, 0], [0, - 1]])
              (Some (stack 2 [[[0, 1], [0, 0]]])))
        (\<lambda>c. DenseLindblad_evaluate_rhs c ([1], [2]) (Rho [[0, 0], [0, 1]]))
      = Inr (Rho [[2, - \<i>], [\<i>, - 2]])
   \<and> bindE (DenseLindbladCollection_init (stack 2 [[[0, 1], [1, 0]]]) (Some [[1, 0], [0, - 1]])
              (Some (stack 2 [[[0, 1], [0, 0]]])))
        (\<lambda>c. DenseLindblad_evaluate_rhs c ([1], [2]) (Rhos [[[0, 0], [0, 1]], [[1, 0], [0, 0]]]))
      = Inr (Rhos [[[2, - \<i>], [\<i>, - 2]], [[0, \<i>], [- \<i>, 0]]])
   \<and> bindE (DenseLindbladCollection_init (stack 2 [[[0, 1], [1, 0]]]) (Some [[1, 0], [0, - 1]]) None)
        (\<lambda>c. DenseLindblad_evaluate_rhs c ([1], []) (Rho [[0, 0], [0, 1]]))
      = Inr (Rho [[0, - \<i>], [\<i>, 0]])"
proof -
  have e: "lindblad_equation 2 [[[0, 1], [1, 0]]] [[1, 0], [0, - 1]] [[[0, 1], [0, 0]]] [1] [2]
        [[0, 0], [0, 1]] = [[2, - \<i>], [\<i>, - 2]]"
    "lindblad_equation 2 [[[0, 1], [1, 0]]] [[1, 0], [0, - 1]] [[[0, 1], [0, 0]]] [1] [2]
        [[1, 0], [0, 0]] = [[0, \<i>], [- \<i>, 0]]"
    "unitary_equation 2 [[[0, 1], [1, 0]]] [[1, 0], [0, - 1]] [1] [[0, 0], [0, 1]]
      = [[0, - \<i>], [\<i>, 0]]"
    by code_simp+
  show ?thesis
    using lindblad_rhs_equation
      [of "stack 2 [[[0, 1], [1, 0]]]" 2 "[[1, 0], [0, - 1]]" "stack 2 [[[0, 1], [0, 0]]]"
        "[1]" "[2]" "[[0, 0], [0, 1]]" "[[[0, 0], [0, 1]], [[1, 0], [0, 0]]]" "[]"]
    by (simp add: e wf_array3_def is_mat_def stack_def)
qed

text \<open>
  The claim as stated gives \<open>[[-1,0],[0,1]]\<close> for the scenario. On the code, and by the
  equation itself, the result is the zero matrix: \<open>L \<rho>\<close> and \<open>L\<^sup>\<dagger> L \<rho>\<close> and
  \<open>\<rho> L\<^sup>\<dagger> L\<close> all vanish for \<open>\<rho> = [[1,0],[0,0]]\<close>.
\<close>

theorem lindblad_scenario_is_zero:
  "bindE (DenseLindbladCollection_init (stack 2 [[[0, 1], [1, 0]]]) (Some [[0, 0], [0, 0]])
              (Some (stack 2 [[[0, 1], [0, 0]]])))
           (\<lambda>c. DenseLindblad_evaluate_rhs c ([0], [1]) (Rho [[1, 0], [0, 0]]))
     \<noteq> Inr (Rho [[- 1, 0], [0, 1]])
   \<and> dissipator_term 2 [[0, 1], [0, 0]] [[1, 0], [0, 0]] = [[0, 0], [0, 0]]"
proof -
  have "bindE (DenseLindbladCollection_init (stack 2 [[[0, 1], [1, 0]]]) (Some [[0, 0], [0, 0]])
              (Some (stack 2 [[[0, 1], [0, 0]]])))
           (\<lambda>c. DenseLindblad_evaluate_rhs c ([0], [1]) (Rho [[1, 0], [0, 0]]))
      = Inr (Rho [[0, 0], [0, 0]])"
    by code_simp
  moreover have "dissipator_term 2 [[0, 1], [0, 0]] [[1, 0], [0, 0]] = [[0, 0], [0, 0 :: complex]]"
    by code_simp
  ultimately show ?thesis by simp
qed

end
